theory Spec2Isabelle
  imports Complex_Main "HOL-Library.AList"
begin

section \<open>Python values used by the exchange rate conversion\<close>

text \<open>
  The module \<^verbatim>\<open>hummingbot/core/utils/exchange_rate_conversion.py\<close> keeps, in class
  attributes of \<^verbatim>\<open>ExchangeRateConversion\<close>, a configuration (two dictionaries keyed by
  asset), a table of merged rates, one price snapshot per data feed and two flags that
  silence repeated log messages.  The embedding below follows the class member by member.

  A Python float is either \<^verbatim>\<open>nan\<close> or a number; numbers are idealised as reals, so
  rounding and infinities are outside the model.  Values that reach the class from the
  configuration file are dynamically typed: a default rate may be a number, a string or
  \<^verbatim>\<open>None\<close>.
\<close>

datatype pyfloat = NaN | Num real

datatype pyval = PNone | PFloat pyfloat | PStr string

datatype exn =
    InvalidSource        \<comment> \<open>\<^verbatim>\<open>Exception("Source name for exchange rate is not valid.")\<close>\<close>
  | DataFeedNameNotValid \<comment> \<open>\<^verbatim>\<open>Exception("Data feed name not valid.")\<close>\<close>
  | ConversionError      \<comment> \<open>\<^verbatim>\<open>ValueError("Unable to convert ...")\<close>\<close>
  | IndexError
  | KeyError
  | AttributeError
  | TypeError
  | ZeroDivisionError

text \<open>\<^verbatim>\<open>math.isnan(x)\<close>: defined on numbers, a \<^verbatim>\<open>TypeError\<close> on anything else.\<close>

fun isnan :: "pyval \<Rightarrow> exn + bool" where
  "isnan (PFloat NaN) = Inr True"
| "isnan (PFloat (Num _)) = Inr False"
| "isnan _ = Inl TypeError"

text \<open>Truth value of an object, as tested by \<^verbatim>\<open>if price:\<close>.  \<^verbatim>\<open>nan\<close> is true.\<close>

fun truthy :: "pyval \<Rightarrow> bool" where
  "truthy PNone = False"
| "truthy (PFloat NaN) = True"
| "truthy (PFloat (Num r)) = (r \<noteq> 0)"
| "truthy (PStr s) = (s \<noteq> [])"

fun fmul :: "pyfloat \<Rightarrow> pyfloat \<Rightarrow> pyfloat" where
  "fmul (Num a) (Num b) = Num (a * b)"
| "fmul _ _ = NaN"

text \<open>Float division raises on a zero divisor, whatever the dividend is.\<close>

fun fdiv :: "pyfloat \<Rightarrow> pyfloat \<Rightarrow> exn + pyfloat" where
  "fdiv a (Num b) = (if b = 0 then Inl ZeroDivisionError
                     else case a of Num x \<Rightarrow> Inr (Num (x / b)) | NaN \<Rightarrow> Inr NaN)"
| "fdiv a NaN = Inr NaN"

text \<open>\<^verbatim>\<open>rate * price\<close> where \<^verbatim>\<open>price\<close> is a float: only a numeric rate can be multiplied.\<close>

fun val_mul :: "pyval \<Rightarrow> pyfloat \<Rightarrow> exn + pyfloat" where
  "val_mul (PFloat r) p = Inr (fmul r p)"
| "val_mul _ p = Inl TypeError"

subsection \<open>Case conversion of ASCII strings\<close>

definition ascii_lowercase :: string where
  "ascii_lowercase = ''abcdefghijklmnopqrstuvwxyz''"

definition ascii_uppercase :: string where
  "ascii_uppercase = ''ABCDEFGHIJKLMNOPQRSTUVWXYZ''"

definition upper_char :: "char \<Rightarrow> char" where
  "upper_char c = (case map_of (zip ascii_lowercase ascii_uppercase) c of
                     Some d \<Rightarrow> d | None \<Rightarrow> c)"

definition lower_char :: "char \<Rightarrow> char" where
  "lower_char c = (case map_of (zip ascii_uppercase ascii_lowercase) c of
                     Some d \<Rightarrow> d | None \<Rightarrow> c)"

definition upper :: "string \<Rightarrow> string" where
  "upper s = map upper_char s"

definition lower :: "string \<Rightarrow> string" where
  "lower s = map lower_char s"

subsection \<open>Dictionaries\<close>

text \<open>
  A \<^verbatim>\<open>dict\<close> keeps its keys in insertion order; assigning to a key that is present
  replaces the value in place, assigning to a new key appends it.  That is
  \<^const>\<open>AList.update\<close> on an association list, with \<^const>\<open>map_of\<close> as lookup.
\<close>

type_synonym ('k, 'v) dict = "('k \<times> 'v) list"

text \<open>\<^verbatim>\<open>{**a, **b}\<close> and \<^verbatim>\<open>a.update(b)\<close>: the items of \<open>b\<close> are assigned into \<open>a\<close> in order.\<close>

definition dict_merge :: "('k, 'v) dict \<Rightarrow> ('k, 'v) dict \<Rightarrow> ('k, 'v) dict" where
  "dict_merge a b = foldl (\<lambda>acc (k, v). AList.update k v acc) a b"

text \<open>\<^verbatim>\<open>d[k]\<close> raises \<^verbatim>\<open>KeyError\<close> on a missing key.\<close>

definition getitem :: "('k, 'v) dict \<Rightarrow> 'k \<Rightarrow> exn + 'v" where
  "getitem d k = (case map_of d k of None \<Rightarrow> Inl KeyError | Some v \<Rightarrow> Inr v)"

text \<open>\<^verbatim>\<open>d.get(k, default)\<close>.\<close>

definition dict_get :: "('k, 'v) dict \<Rightarrow> 'k \<Rightarrow> 'v \<Rightarrow> 'v" where
  "dict_get d k dflt = (case map_of d k of None \<Rightarrow> dflt | Some v \<Rightarrow> v)"

text \<open>\<^verbatim>\<open>k in d\<close>.\<close>

definition has_key :: "('k, 'v) dict \<Rightarrow> 'k \<Rightarrow> bool" where
  "has_key d k = (map_of d k \<noteq> None)"

text \<open>A configuration entry is the dictionary \<^verbatim>\<open>{"default": ..., "source": ...}\<close>.\<close>

type_synonym entry = "(string, pyval) dict"

section \<open>Data feeds\<close>

text \<open>
  \<^verbatim>\<open>DataFeedBase\<close> is imported, not defined, by the module.  Of a feed the class reads
  \<^verbatim>\<open>name\<close>, \<^verbatim>\<open>price_dict\<close> and \<^verbatim>\<open>get_price\<close>, and awaits \<^verbatim>\<open>get_ready()\<close>.
\<close>

record data_feed =
  name :: string
  price_dict :: "(string, pyval) dict"

text \<open>
  Modelled from the spec: \<^verbatim>\<open>DataFeedBase.get_price\<close> is not part of the module; the
  data feed provider contract describes it as the single-asset lookup
  \<^verbatim>\<open>getPrice(asset) \<rightarrow> float | absent\<close> into the provider's current prices, absent being
  \<^verbatim>\<open>None\<close>.
\<close>

definition get_price :: "data_feed \<Rightarrow> string \<Rightarrow> pyval" where
  "get_price df asset = dict_get (price_dict df) asset PNone"

section \<open>The state of \<^verbatim>\<open>ExchangeRateConversion\<close>\<close>

datatype log_entry =
    ConfigError            \<comment> \<open>"Error initiating config for exchange rate conversion."\<close>
  | DefaultFeedMissing     \<comment> \<open>"coin_gecko_api is not in one of the data feeds: ..."\<close>
  | NoDataFound string string  \<comment> \<open>"No data found for {asset_name} in {source_name} data feed."\<close>
  | FeedError              \<comment> \<open>"Error getting data from {source_name} data feed."\<close>
  | NotReady string        \<comment> \<open>"Error initializing data feed - {data_feed.name}."\<close>
  | RequestError           \<comment> \<open>"Error sending requests."\<close>

text \<open>
  The first three fields are what the module imports: the two values of
  \<^verbatim>\<open>global_config_map\<close> it reads (\<open>None\<close> when unset) and the two built-in feed
  singletons.  The others are the class attributes, under their own names without the
  leading underscore; \<open>ready_notifier\<close> is whether the event is set,
  \<open>erc_shared_instance\<close> whether the shared instance exists, and \<open>log\<close> collects what
  is sent to the logger.
\<close>

record erc =
  exchange_rate_fetcher :: "pyval list list option"
  exchange_rate_conversion :: "pyval list list option"
  builtin_data_feeds :: "data_feed list"
  exchange_rate_config_override :: "(string, (pyval, entry) dict) dict option"
  data_feeds_override :: "data_feed list option"
  data_feeds :: "data_feed list"
  conversion_required :: "(string, entry) dict"
  global_config :: "(string, entry) dict"
  exchange_rate :: "(string, pyval) dict"
  all_data_feed_exchange_rate :: "(string, (string, pyval) dict) dict"
  started :: bool
  show_update_exchange_rates_from_data_feeds_errors :: bool
  show_wait_till_ready_errors :: bool
  update_interval :: pyfloat
  ready_notifier :: bool
  erc_shared_instance :: bool
  log :: "log_entry list"

definition DEFAULT_DATA_FEED_NAME :: string where
  "DEFAULT_DATA_FEED_NAME = ''coin_gecko_api''"

section \<open>\<^verbatim>\<open>init_config\<close>\<close>

text \<open>
  \<^verbatim>\<open>{e[0]: {"default": e[1], "source": e[2]} for e in rate_conversion_config}\<close>:
  indexing an entry that is too short raises \<^verbatim>\<open>IndexError\<close>; elements beyond the third
  are never read.
\<close>

fun conversion_items :: "pyval list list \<Rightarrow> (pyval, entry) dict \<Rightarrow> exn + (pyval, entry) dict" where
  "conversion_items [] acc = Inr acc"
| "conversion_items ((e0 # e1 # e2 # _) # es) acc =
     conversion_items es (AList.update e0 [(''default'', e1), (''source'', e2)] acc)"
| "conversion_items (_ # es) acc = Inl IndexError"

text \<open>\<^verbatim>\<open>{e[0]: {"default": NaN, "source": e[1]} for e in fetcher_global_config}\<close>.\<close>

fun fetcher_items :: "pyval list list \<Rightarrow> (pyval, entry) dict \<Rightarrow> exn + (pyval, entry) dict" where
  "fetcher_items [] acc = Inr acc"
| "fetcher_items ((e0 # e1 # _) # es) acc =
     fetcher_items es (AList.update e0 [(''default'', PFloat NaN), (''source'', e1)] acc)"
| "fetcher_items (_ # es) acc = Inl IndexError"

text \<open>\<^verbatim>\<open>{k.upper(): v for k, v in d.items()}\<close>: only a string has \<^verbatim>\<open>upper\<close>.\<close>

fun upper_keys :: "(pyval, 'v) dict \<Rightarrow> (string, 'v) dict \<Rightarrow> exn + (string, 'v) dict" where
  "upper_keys [] acc = Inr acc"
| "upper_keys ((PStr k, v) # kvs) acc = upper_keys kvs (AList.update (upper k) v acc)"
| "upper_keys (_ # kvs) acc = Inl AttributeError"

text \<open>\<^verbatim>\<open>{k: v["default"] for k, v in global_config.items()}\<close>.\<close>

fun default_rates :: "(string, entry) dict \<Rightarrow> (string, pyval) dict \<Rightarrow> exn + (string, pyval) dict" where
  "default_rates [] acc = Inr acc"
| "default_rates ((k, v) # kvs) acc =
     (case getitem v ''default'' of
        Inl e \<Rightarrow> Inl e
      | Inr d \<Rightarrow> default_rates kvs (AList.update k d acc))"

text \<open>
  Lines 85 to 98 of the source: the pair \<open>(conversion_required, global_config)\<close> with
  upper-cased keys, before the two are merged, or the exception that interrupts them.
  The conversion list is read before the fetcher list, the keys of \<open>global_config\<close> are
  upper-cased before those of \<open>conversion_required\<close>.
\<close>

definition read_config :: "erc \<Rightarrow> exn + ((string, entry) dict \<times> (string, entry) dict)" where
  "read_config s =
     (let fetcher_global_config = (case exchange_rate_fetcher s of None \<Rightarrow> [] | Some l \<Rightarrow> l);
          rate_conversion_config = (case exchange_rate_conversion s of None \<Rightarrow> [] | Some l \<Rightarrow> l);
          raw = (case exchange_rate_config_override s of
                   None \<Rightarrow>
                     (case conversion_items rate_conversion_config [] of
                        Inl e \<Rightarrow> Inl e
                      | Inr cr \<Rightarrow>
                          (case fetcher_items fetcher_global_config [] of
                             Inl e \<Rightarrow> Inl e
                           | Inr gc \<Rightarrow> Inr (cr, gc)))
                 | Some ov \<Rightarrow>
                     Inr (dict_get ov ''conversion_required'' [], dict_get ov ''global_config'' []))
      in case raw of
           Inl e \<Rightarrow> Inl e
         | Inr (cr, gc) \<Rightarrow>
             (case upper_keys gc [] of
                Inl e \<Rightarrow> Inl e
              | Inr gc' \<Rightarrow>
                  (case upper_keys cr [] of
                     Inl e \<Rightarrow> Inl e
                   | Inr cr' \<Rightarrow> Inr (cr', gc'))))"

text \<open>
  The whole of \<^verbatim>\<open>init_config\<close>.  \<open>data_feeds\<close> is assigned first.  The configuration is
  assigned in one statement (line 99) and the merged rates in the next (line 103), which
  can still raise; every exception ends in the \<^verbatim>\<open>except\<close> clause, which logs and returns.
\<close>

definition init_config :: "erc \<Rightarrow> erc" where
  "init_config s =
     (let s1 = s\<lparr>data_feeds := (case data_feeds_override s of
                                  None \<Rightarrow> builtin_data_feeds s
                                | Some fs \<Rightarrow> fs)\<rparr>
      in case read_config s1 of
           Inl e \<Rightarrow> s1\<lparr>log := log s1 @ [ConfigError]\<rparr>
         | Inr (cr, gc) \<Rightarrow>
             (let s2 = s1\<lparr>conversion_required := cr, global_config := dict_merge gc cr\<rparr>
              in case default_rates (global_config s2) [] of
                   Inl e \<Rightarrow> s2\<lparr>log := log s2 @ [ConfigError]\<rparr>
                 | Inr r \<Rightarrow> s2\<lparr>exchange_rate := r\<rparr>))"

section \<open>Lifecycle\<close>

text \<open>
  \<^verbatim>\<open>start\<close> and \<^verbatim>\<open>stop\<close> also start and stop the feeds and schedule or cancel the
  polling task; of these only the flag \<open>started\<close> is read again by the class.
\<close>

definition stop :: "erc \<Rightarrow> erc" where
  "stop s = s\<lparr>started := False\<rparr>"

definition start :: "erc \<Rightarrow> erc" where
  "start s = (stop s)\<lparr>started := True\<rparr>"

definition set_global_exchange_rate_config ::
    "(string, (pyval, entry) dict) dict \<Rightarrow> erc \<Rightarrow> erc" where
  "set_global_exchange_rate_config config s =
     init_config (s\<lparr>exchange_rate_config_override := Some config\<rparr>)"

definition set_data_feeds :: "data_feed list \<Rightarrow> erc \<Rightarrow> erc" where
  "set_data_feeds fs s = init_config (s\<lparr>data_feeds_override := Some fs\<rparr>)"

definition set_update_interval :: "pyfloat \<Rightarrow> erc \<Rightarrow> erc" where
  "set_update_interval i s = s\<lparr>update_interval := i\<rparr>"

text \<open>The constructor only calls \<^verbatim>\<open>init_config\<close>.\<close>

definition get_instance :: "erc \<Rightarrow> erc" where
  "get_instance s =
     (if \<not> erc_shared_instance s then (init_config s)\<lparr>erc_shared_instance := True\<rparr>
      else if global_config s = [] then init_config s
      else s)"

section \<open>Conversion API\<close>

text \<open>
  The argument \<open>source\<close> is \<open>None\<close> when the caller leaves it out (the default of all
  three methods).  The tests are made in the order of the source: \<^verbatim>\<open>"default"\<close>, then
  the names of the stored snapshots, then \<^verbatim>\<open>"config"\<close>.
\<close>

definition get_exchange_rate :: "erc \<Rightarrow> string option \<Rightarrow> (exn + (string, pyval) dict) \<times> erc" where
  "get_exchange_rate s source =
     (if source = Some ''default'' then
        (case map_of (all_data_feed_exchange_rate s) DEFAULT_DATA_FEED_NAME of
           None \<Rightarrow> (Inl DataFeedNameNotValid, s\<lparr>log := log s @ [DefaultFeedMissing]\<rparr>)
         | Some snapshot \<Rightarrow> (Inr snapshot, s))
      else case source of
             None \<Rightarrow> (Inl InvalidSource, s)
           | Some src \<Rightarrow>
               (case map_of (all_data_feed_exchange_rate s) src of
                  Some snapshot \<Rightarrow> (Inr snapshot, s)
                | None \<Rightarrow>
                    if src = ''config'' then (Inr (exchange_rate s), s)
                    else (Inl InvalidSource, s)))"

definition adjust_token_rate ::
    "erc \<Rightarrow> string \<Rightarrow> pyfloat \<Rightarrow> string option \<Rightarrow> (exn + pyfloat) \<times> erc" where
  "adjust_token_rate s asset_name price source =
     (let asset_name = upper asset_name;
          s1 = (if \<not> started s then start s else s);
          (r, s2) = get_exchange_rate s1 source
      in case r of
           Inl e \<Rightarrow> (Inl e, s2)
         | Inr rates \<Rightarrow>
             if has_key (conversion_required s2) asset_name \<and> has_key (exchange_rate s2) asset_name
             then (case getitem rates asset_name of
                     Inl e \<Rightarrow> (Inl e, s2)
                   | Inr rate \<Rightarrow> (val_mul rate price, s2))
             else (Inr price, s2))"

text \<open>\<^verbatim>\<open>amount * from_currency_usd_rate / to_currency_usd_rate\<close>, both rates being numbers.\<close>

fun mul_div :: "pyfloat \<Rightarrow> pyval \<Rightarrow> pyval \<Rightarrow> exn + pyfloat" where
  "mul_div amount (PFloat f) (PFloat t) = fdiv (fmul amount f) t"
| "mul_div amount _ _ = Inl TypeError"

definition convert_token_value ::
    "erc \<Rightarrow> pyfloat \<Rightarrow> string \<Rightarrow> string \<Rightarrow> string option \<Rightarrow> (exn + pyfloat) \<times> erc" where
  "convert_token_value s amount from_currency to_currency source =
     (let s1 = (if \<not> started s then start s else s);
          (r, s2) = get_exchange_rate s1 source
      in case r of
           Inl e \<Rightarrow> (Inl e, s2)
         | Inr rates \<Rightarrow>
             (let from_currency = upper from_currency;
                  to_currency = upper to_currency
              in if from_currency = ''ETH'' \<and> to_currency = ''WETH''
                    \<or> from_currency = ''WETH'' \<and> to_currency = ''ETH''
                 then (Inr amount, s2)
                 else
                   (let from_currency_usd_rate = dict_get rates from_currency (PFloat NaN);
                        to_currency_usd_rate = dict_get rates to_currency (PFloat NaN)
                    in case isnan from_currency_usd_rate of
                         Inl e \<Rightarrow> (Inl e, s2)
                       | Inr True \<Rightarrow> (Inl ConversionError, s2)
                       | Inr False \<Rightarrow>
                           (case isnan to_currency_usd_rate of
                              Inl e \<Rightarrow> (Inl e, s2)
                            | Inr True \<Rightarrow> (Inl ConversionError, s2)
                            | Inr False \<Rightarrow>
                                (mul_div amount from_currency_usd_rate to_currency_usd_rate, s2)))))"

section \<open>Refreshing the rates from the data feeds\<close>

text \<open>The first loop of \<^verbatim>\<open>update_exchange_rates_from_data_feeds\<close>: one snapshot per feed name.\<close>

fun store_snapshots :: "data_feed list \<Rightarrow> erc \<Rightarrow> erc" where
  "store_snapshots [] s = s"
| "store_snapshots (df # dfs) s =
     store_snapshots dfs
       (s\<lparr>all_data_feed_exchange_rate :=
            AList.update (name df) (price_dict df) (all_data_feed_exchange_rate s)\<rparr>)"

text \<open>
  The inner loop, over the items of \<open>global_config\<close>, for one feed.  The result carries
  the state, the local \<open>has_errors\<close> and the exception that ended the loop, if any:
  \<^verbatim>\<open>config["source"]\<close> raises on an entry without source, \<^verbatim>\<open>.lower()\<close> on a source that
  is not a string.  What was assigned before an exception stays assigned.
\<close>

fun update_assets ::
    "data_feed \<Rightarrow> (string, entry) dict \<Rightarrow> erc \<Rightarrow> bool \<Rightarrow> exn option \<times> erc \<times> bool" where
  "update_assets df [] s has_errors = (None, s, has_errors)"
| "update_assets df ((k, config) # rest) s has_errors =
     (let asset_name = upper k in
      case getitem config ''source'' of
        Inl e \<Rightarrow> (Some e, s, has_errors)
      | Inr (PStr src) \<Rightarrow>
          if lower src = lower (name df) then
            (let price = get_price df asset_name in
             if truthy price then
               update_assets df rest
                 (s\<lparr>exchange_rate := AList.update asset_name price (exchange_rate s)\<rparr>) has_errors
             else
               update_assets df rest
                 (if show_update_exchange_rates_from_data_feeds_errors s
                  then s\<lparr>log := log s @ [NoDataFound asset_name (name df)]\<rparr>
                  else s)
                 True)
          else update_assets df rest s has_errors
      | Inr _ \<Rightarrow> (Some AttributeError, s, has_errors))"

text \<open>The outer loop, over the feeds.\<close>

fun update_feeds :: "data_feed list \<Rightarrow> erc \<Rightarrow> bool \<Rightarrow> exn option \<times> erc \<times> bool" where
  "update_feeds [] s has_errors = (None, s, has_errors)"
| "update_feeds (df # dfs) s has_errors =
     (case update_assets df (global_config s) s has_errors of
        (Some e, s', h) \<Rightarrow> (Some e, s', h)
      | (None, s', h) \<Rightarrow> update_feeds dfs s' h)"

definition update_exchange_rates_from_data_feeds :: "erc \<Rightarrow> exn option \<times> erc" where
  "update_exchange_rates_from_data_feeds s =
     (case update_feeds (data_feeds s) (store_snapshots (data_feeds s) s) False of
        (Some e, s', h) \<Rightarrow> (Some e, s'\<lparr>log := log s' @ [FeedError]\<rparr>)
      | (None, s', h) \<Rightarrow>
          (None, if h then s'\<lparr>show_update_exchange_rates_from_data_feeds_errors := False\<rparr> else s'))"

section \<open>Waiting for the feeds, and the polling loop\<close>

text \<open>
  \<^verbatim>\<open>asyncio.wait_for(data_feed.get_ready(), timeout)\<close> either returns or raises
  \<^verbatim>\<open>TimeoutError\<close>; which of the two is decided outside the class.  The list
  \<open>timed_out\<close> gives that outcome for each feed, in the order of \<open>data_feeds\<close> (a feed
  beyond the end of the list becomes ready in time).
\<close>

fun wait_feeds :: "data_feed list \<Rightarrow> bool list \<Rightarrow> erc \<Rightarrow> erc" where
  "wait_feeds [] timed_out s = s"
| "wait_feeds (df # dfs) timed_out s =
     wait_feeds dfs (tl timed_out)
       (if timed_out \<noteq> [] \<and> hd timed_out then
          (if show_wait_till_ready_errors s
           then s\<lparr>log := log s @ [NotReady (name df)], show_wait_till_ready_errors := False\<rparr>
           else s)
        else s)"

definition wait_till_ready :: "bool list \<Rightarrow> erc \<Rightarrow> erc" where
  "wait_till_ready timed_out s = wait_feeds (data_feeds s) timed_out s"

text \<open>One iteration of \<^verbatim>\<open>request_loop\<close>, up to the sleep.\<close>

definition request_cycle :: "bool list \<Rightarrow> erc \<Rightarrow> erc" where
  "request_cycle timed_out s =
     (case update_exchange_rates_from_data_feeds (wait_till_ready timed_out s) of
        (None, s') \<Rightarrow> s'\<lparr>ready_notifier := True\<rparr>
      | (Some e, s') \<Rightarrow> s'\<lparr>log := log s' @ [RequestError]\<rparr>)"

section \<open>The class as loaded\<close>

text \<open>
  The class attributes as the class body assigns them, for given contents of
  \<^verbatim>\<open>global_config_map\<close> and given built-in feeds.
\<close>

definition class_state :: "pyval list list option \<Rightarrow> pyval list list option \<Rightarrow> data_feed list \<Rightarrow> erc" where
  "class_state fetcher conversion feeds =
     \<lparr>exchange_rate_fetcher = fetcher,
      exchange_rate_conversion = conversion,
      builtin_data_feeds = feeds,
      exchange_rate_config_override = None,
      data_feeds_override = None,
      data_feeds = [],
      conversion_required = [],
      global_config = [],
      exchange_rate = [],
      all_data_feed_exchange_rate = [],
      started = False,
      show_update_exchange_rates_from_data_feeds_errors = True,
      show_wait_till_ready_errors = True,
      update_interval = Num 5,
      ready_notifier = False,
      erc_shared_instance = False,
      log = []\<rparr>"

section \<open>Runs of the class\<close>

text \<open>
  What can happen to the class during the life of a process: a call of one of its
  methods, one iteration of the polling loop, or a change in what it imports
  (\<open>ConfigLoaded\<close>: the global configuration map gets its values; \<open>FeedPolled\<close>: the
  feeds of a given name report new prices).
\<close>

datatype op =
    GetInstance
  | InitConfig
  | SetGlobalExchangeRateConfig "(string, (pyval, entry) dict) dict"
  | SetDataFeeds "data_feed list"
  | SetUpdateInterval pyfloat
  | GetExchangeRate "string option"
  | AdjustTokenRate string pyfloat "string option"
  | ConvertTokenValue pyfloat string string "string option"
  | UpdateExchangeRates
  | WaitTillReady "bool list"
  | RequestCycle "bool list"
  | Start
  | Stop
  | ConfigLoaded "pyval list list option" "pyval list list option"
  | FeedPolled string "(string, pyval) dict"

definition poll_feed :: "string \<Rightarrow> (string, pyval) dict \<Rightarrow> data_feed \<Rightarrow> data_feed" where
  "poll_feed n prices df = (if name df = n then df\<lparr>price_dict := prices\<rparr> else df)"

fun step :: "op \<Rightarrow> erc \<Rightarrow> erc" where
  "step GetInstance s = get_instance s"
| "step InitConfig s = init_config s"
| "step (SetGlobalExchangeRateConfig config) s = set_global_exchange_rate_config config s"
| "step (SetDataFeeds fs) s = set_data_feeds fs s"
| "step (SetUpdateInterval i) s = set_update_interval i s"
| "step (GetExchangeRate source) s = snd (get_exchange_rate s source)"
| "step (AdjustTokenRate a p source) s = snd (adjust_token_rate s a p source)"
| "step (ConvertTokenValue x f t source) s = snd (convert_token_value s x f t source)"
| "step UpdateExchangeRates s = snd (update_exchange_rates_from_data_feeds s)"
| "step (WaitTillReady timed_out) s = wait_till_ready timed_out s"
| "step (RequestCycle timed_out) s = request_cycle timed_out s"
| "step Start s = start s"
| "step Stop s = stop s"
| "step (ConfigLoaded fetcher conversion) s =
     s\<lparr>exchange_rate_fetcher := fetcher, exchange_rate_conversion := conversion\<rparr>"
| "step (FeedPolled n prices) s =
     s\<lparr>builtin_data_feeds := map (poll_feed n prices) (builtin_data_feeds s),
       data_feeds_override := map_option (map (poll_feed n prices)) (data_feeds_override s),
       data_feeds := map (poll_feed n prices) (data_feeds s)\<rparr>"

fun run :: "op list \<Rightarrow> erc \<Rightarrow> erc" where
  "run [] s = s"
| "run (x # xs) s = run xs (step x s)"

section \<open>Notions used in the statements\<close>

text \<open>A source that \<^verbatim>\<open>get_exchange_rate\<close> accepts: \<^verbatim>\<open>"default"\<close> with the snapshot of the
  default feed stored, the name of a stored snapshot, or \<^verbatim>\<open>"config"\<close>.\<close>

definition source_resolves :: "erc \<Rightarrow> string option \<Rightarrow> bool" where
  "source_resolves s source =
     (case source of
        None \<Rightarrow> False
      | Some src \<Rightarrow>
          if src = ''default'' then has_key (all_data_feed_exchange_rate s) DEFAULT_DATA_FEED_NAME
          else has_key (all_data_feed_exchange_rate s) src \<or> src = ''config'')"

text \<open>The pair of currencies that \<^verbatim>\<open>convert_token_value\<close> treats as of equal value.\<close>

definition eth_weth :: "string \<Rightarrow> string \<Rightarrow> bool" where
  "eth_weth f t = (f = ''ETH'' \<and> t = ''WETH'' \<or> f = ''WETH'' \<and> t = ''ETH'')"

text \<open>The keys of a dictionary are upper-case and none occurs twice.\<close>

definition keys_normal :: "(string, 'v) dict \<Rightarrow> bool" where
  "keys_normal d = (distinct (map fst d) \<and> list_all (\<lambda>k. upper k = k) (map fst d))"

text \<open>\<open>global_config\<close> agrees with \<open>conversion_required\<close> on every key of the latter.\<close>

definition config_superset :: "erc \<Rightarrow> bool" where
  "config_superset s =
     list_all (\<lambda>k. map_of (global_config s) k = map_of (conversion_required s) k)
       (map fst (conversion_required s))"

text \<open>The entry \<open>config\<close> names the feed \<open>df\<close> as its source, compared without case.\<close>

definition names_feed :: "entry \<Rightarrow> data_feed \<Rightarrow> bool" where
  "names_feed config df =
     (case map_of config ''source'' of
        Some (PStr src) \<Rightarrow> lower src = lower (name df)
      | _ \<Rightarrow> False)"

text \<open>The feeds, in the order of the list, that are the source of an entry and have a
  price for the asset that counts as true.\<close>

definition priced_by :: "data_feed list \<Rightarrow> entry \<Rightarrow> string \<Rightarrow> data_feed list" where
  "priced_by feeds config asset =
     filter (\<lambda>df. names_feed config df \<and> truthy (get_price df asset)) feeds"

text \<open>The lookups of one refresh that find no price, in the order they are made.\<close>

definition misses_of :: "data_feed \<Rightarrow> (string, entry) dict \<Rightarrow> log_entry list" where
  "misses_of df gc =
     map (\<lambda>(k, config). NoDataFound (upper k) (name df))
       (filter (\<lambda>(k, config). names_feed config df \<and> \<not> truthy (get_price df (upper k))) gc)"

definition misses :: "erc \<Rightarrow> log_entry list" where
  "misses s = concat (map (\<lambda>df. misses_of df (global_config s)) (data_feeds s))"

text \<open>Inputs on which building the two mappings raises: an entry of the conversion
  list with fewer than three elements, an entry of the fetch list with fewer than two,
  or an asset name that is not a string, in the lists or in the override.\<close>

fun is_str :: "pyval \<Rightarrow> bool" where
  "is_str (PStr _) = True"
| "is_str _ = False"

definition malformed :: "erc \<Rightarrow> bool" where
  "malformed s =
     (case exchange_rate_config_override s of
        None \<Rightarrow>
          list_ex (\<lambda>e. length e < 3 \<or> \<not> is_str (hd e))
            (case exchange_rate_conversion s of None \<Rightarrow> [] | Some l \<Rightarrow> l)
          \<or> list_ex (\<lambda>e. length e < 2 \<or> \<not> is_str (hd e))
               (case exchange_rate_fetcher s of None \<Rightarrow> [] | Some l \<Rightarrow> l)
      | Some ov \<Rightarrow>
          list_ex (\<lambda>(k, v). \<not> is_str k) (dict_get ov ''conversion_required'' [])
          \<or> list_ex (\<lambda>(k, v). \<not> is_str k) (dict_get ov ''global_config'' []))"

text \<open>An entry whose default is \<^verbatim>\<open>nan\<close>.\<close>

definition nan_default :: "entry \<Rightarrow> bool" where
  "nan_default e = (map_of e ''default'' = Some (PFloat NaN))"

fun is_no_data :: "log_entry \<Rightarrow> bool" where
  "is_no_data (NoDataFound _ _) = True"
| "is_no_data _ = False"

fun is_not_ready :: "log_entry \<Rightarrow> bool" where
  "is_not_ready (NotReady _) = True"
| "is_not_ready _ = False"

text \<open>The flag of the lookup misses is false only after a miss has been reported.\<close>

definition miss_reported :: "erc \<Rightarrow> bool" where
  "miss_reported s =
     (show_update_exchange_rates_from_data_feeds_errors s \<or> filter is_no_data (log s) \<noteq> [])"

text \<open>The flag of the readiness timeouts is true exactly as long as none has been reported.\<close>

definition timeout_unreported :: "erc \<Rightarrow> bool" where
  "timeout_unreported s =
     (show_wait_till_ready_errors s = (filter is_not_ready (log s) = []))"

text \<open>An entry on which the refresh raises: it has no source, or one that is not a
  string.  The refresh meets every entry in the pass for its first feed, so it raises
  exactly if there is a feed and such an entry.\<close>

definition bad_entry :: "entry \<Rightarrow> bool" where
  "bad_entry config = (case map_of config ''source'' of Some (PStr _) \<Rightarrow> False | _ \<Rightarrow> True)"

definition refresh_raises :: "erc \<Rightarrow> bool" where
  "refresh_raises s =
     (data_feeds s \<noteq> [] \<and> list_ex (\<lambda>(k, config). bad_entry config) (global_config s))"

text \<open>The lookups without a price that a refresh makes before it ends: all of them if it
  completes, those of the first feed up to the entry that raises otherwise.\<close>

definition misses_met :: "erc \<Rightarrow> log_entry list" where
  "misses_met s =
     (if refresh_raises s
      then misses_of (hd (data_feeds s))
             (takeWhile (\<lambda>(k, config). \<not> bad_entry config) (global_config s))
      else misses s)"

section \<open>Example states\<close>

text \<open>
  Scenario A of the specification: the fetch list \<^verbatim>\<open>[("BTC","feedX")]\<close> and the conversion
  list \<^verbatim>\<open>[("USDT","1.0","feedX")]\<close>, with the feed \<^verbatim>\<open>feedX\<close> installed.  Scenario B is
  scenario A after one refresh.
\<close>

definition feedX :: data_feed where
  "feedX = \<lparr>name = ''feedX'',
            price_dict = [(''BTC'', PFloat (Num 50000)), (''USDT'', PFloat (Num 1))]\<rparr>"

definition scenario_A :: erc where
  "scenario_A =
     set_data_feeds [feedX]
       (class_state (Some [[PStr ''BTC'', PStr ''feedX'']])
                    (Some [[PStr ''USDT'', PStr ''1.0'', PStr ''feedX'']]) [])"

definition scenario_B :: erc where
  "scenario_B = snd (update_exchange_rates_from_data_feeds scenario_A)"

text \<open>The class right after the shared instance is first obtained, nothing configured.\<close>

definition fresh :: erc where
  "fresh = get_instance (class_state None None [])"

text \<open>A feed that is called \<^verbatim>\<open>config\<close>, installed and polled once.\<close>

definition feed_named_config :: data_feed where
  "feed_named_config = \<lparr>name = ''config'', price_dict = [(''BTC'', PFloat (Num 7))]\<rparr>"

definition shadowed :: erc where
  "shadowed = snd (update_exchange_rates_from_data_feeds
                    (set_data_feeds [feed_named_config] (class_state None None [])))"

text \<open>
  The feed \<^verbatim>\<open>feedX\<close> installed and polled once with nothing configured, then an override
  whose only entry has a source and no default.
\<close>

definition stale :: erc where
  "stale =
     set_global_exchange_rate_config
       [(''conversion_required'', [(PStr ''BTC'', [(''source'', PStr ''feedX'')])])]
       (snd (update_exchange_rates_from_data_feeds
               (set_data_feeds [feedX] (class_state None None []))))"


text \<open>The same asset in the fetch list and in the conversion list, with different sources.\<close>

definition overlap :: erc where
  "overlap = get_instance (class_state (Some [[PStr ''USDT'', PStr ''feedY'']])
                             (Some [[PStr ''USDT'', PFloat (Num 1), PStr ''feedX'']]) [])"

text \<open>The lists of scenario A with the number 1.0 as default, before \<^verbatim>\<open>init_config\<close>.\<close>

definition numeric_lists :: erc where
  "numeric_lists = class_state (Some [[PStr ''BTC'', PStr ''feedX'']])
                      (Some [[PStr ''USDT'', PFloat (Num 1), PStr ''feedX'']]) [feedX]"

text \<open>Scenario B with a conversion list whose default is not numeric, resolved again;
  and scenario B with a conversion list whose entry lacks the source.\<close>

definition garbled :: erc where
  "garbled = init_config
     (scenario_B\<lparr>exchange_rate_conversion := Some [[PStr ''USDT'', PStr ''abc'', PStr ''feedX'']]\<rparr>)"

definition short_entry :: erc where
  "short_entry = scenario_B\<lparr>exchange_rate_conversion := Some [[PStr ''USDT'', PFloat (Num 1)]]\<rparr>"

text \<open>A feed that reports the price 0.0 for \<^verbatim>\<open>BTC\<close>, installed with \<^verbatim>\<open>BTC\<close> in the fetch
  list.\<close>

definition feed_zero :: data_feed where
  "feed_zero = \<lparr>name = ''feedX'', price_dict = [(''BTC'', PFloat (Num 0))]\<rparr>"

definition zero_priced :: erc where
  "zero_priced = set_data_feeds [feed_zero]
                   (class_state (Some [[PStr ''BTC'', PStr ''feedX'']]) None [])"

text \<open>Three assets fetched from \<^verbatim>\<open>feedX\<close>, the source written in three ways; the feed has
  a price for the first only.\<close>

definition two_missing :: erc where
  "two_missing =
     run [SetDataFeeds [feedX]]
       (class_state (Some [[PStr ''BTC'', PStr ''FEEDX''], [PStr ''DOGE'', PStr ''feedx''],
                           [PStr ''ETH'', PStr ''feedX'']]) None [])"

text \<open>The state \<open>two_missing\<close> after a wait in which its feed timed out, and after one
  refresh.\<close>

definition timed_out_once :: erc where
  "timed_out_once = wait_till_ready [True] two_missing"

definition refreshed_once :: erc where
  "refreshed_once = snd (update_exchange_rates_from_data_feeds two_missing)"

text \<open>\<^verbatim>\<open>BTC\<close> in the conversion list with default 2.0, the feed installed and polled once.\<close>

definition btc_tracked :: erc where
  "btc_tracked =
     snd (update_exchange_rates_from_data_feeds
            (set_data_feeds [feedX]
               (class_state None (Some [[PStr ''BTC'', PFloat (Num 2), PStr ''feedX'']]) [])))"

text \<open>The feed \<^verbatim>\<open>feedX\<close> and an override with two fetched assets, the second of them without
  a source.\<close>

definition no_source :: erc where
  "no_source =
     run [SetDataFeeds [feedX],
          SetGlobalExchangeRateConfig
            [(''global_config'',
              [(PStr ''DOGE'', [(''default'', PFloat NaN), (''source'', PStr ''feedX'')]),
               (PStr ''BAD'', [(''default'', PFloat NaN)])])]]
       (class_state None None [])"

section \<open>Evaluating the examples\<close>

lemmas case_defs = Let_def upper_def lower_def upper_char_def lower_char_def
  ascii_lowercase_def ascii_uppercase_def

lemmas config_defs = init_config_def read_config_def dict_merge_def getitem_def dict_get_def
  set_data_feeds_def set_global_exchange_rate_config_def get_instance_def class_state_def

lemmas api_defs = get_exchange_rate_def adjust_token_rate_def convert_token_value_def
  has_key_def start_def stop_def DEFAULT_DATA_FEED_NAME_def source_resolves_def

lemmas update_defs = update_exchange_rates_from_data_feeds_def get_price_def

lemma scenario_A_eval:
  "scenario_A =
     \<lparr>exchange_rate_fetcher = Some [[PStr ''BTC'', PStr ''feedX'']],
      exchange_rate_conversion = Some [[PStr ''USDT'', PStr ''1.0'', PStr ''feedX'']],
      builtin_data_feeds = [],
      exchange_rate_config_override = None,
      data_feeds_override = Some [feedX],
      data_feeds = [feedX],
      conversion_required =
        [(''USDT'', [(''default'', PStr ''1.0''), (''source'', PStr ''feedX'')])],
      global_config =
        [(''BTC'', [(''default'', PFloat NaN), (''source'', PStr ''feedX'')]),
         (''USDT'', [(''default'', PStr ''1.0''), (''source'', PStr ''feedX'')])],
      exchange_rate = [(''BTC'', PFloat NaN), (''USDT'', PStr ''1.0'')],
      all_data_feed_exchange_rate = [],
      started = False,
      show_update_exchange_rates_from_data_feeds_errors = True,
      show_wait_till_ready_errors = True,
      update_interval = Num 5,
      ready_notifier = False,
      erc_shared_instance = False,
      log = []\<rparr>"
  by (simp add: scenario_A_def config_defs case_defs)

lemma scenario_B_eval:
  "scenario_B =
     scenario_A\<lparr>exchange_rate := [(''BTC'', PFloat (Num 50000)), (''USDT'', PFloat (Num 1))],
                all_data_feed_exchange_rate :=
                  [(''feedX'', [(''BTC'', PFloat (Num 50000)), (''USDT'', PFloat (Num 1))])]\<rparr>"
  by (simp add: scenario_B_def scenario_A_eval update_defs feedX_def case_defs getitem_def
        dict_get_def)

lemma fresh_eval:
  "fresh = (class_state None None [])\<lparr>erc_shared_instance := True\<rparr>"
  by (simp add: fresh_def config_defs)

lemma shadowed_eval:
  "exchange_rate shadowed = [] \<and>
   all_data_feed_exchange_rate shadowed = [(''config'', [(''BTC'', PFloat (Num 7))])]"
  by (simp add: shadowed_def config_defs update_defs feed_named_config_def)

lemma stale_eval:
  "conversion_required stale = [(''BTC'', [(''source'', PStr ''feedX'')])]
   \<and> global_config stale = [(''BTC'', [(''source'', PStr ''feedX'')])]
   \<and> exchange_rate stale = []
   \<and> all_data_feed_exchange_rate stale
       = [(''feedX'', [(''BTC'', PFloat (Num 50000)), (''USDT'', PFloat (Num 1))])]
   \<and> log stale = [ConfigError]"
  by (simp add: stale_def config_defs update_defs feedX_def case_defs)

lemma btc_tracked_eval:
  "conversion_required btc_tracked
     = [(''BTC'', [(''default'', PFloat (Num 2)), (''source'', PStr ''feedX'')])]
   \<and> exchange_rate btc_tracked = [(''BTC'', PFloat (Num 50000))]
   \<and> all_data_feed_exchange_rate btc_tracked
       = [(''feedX'', [(''BTC'', PFloat (Num 50000)), (''USDT'', PFloat (Num 1))])]"
  by (simp add: btc_tracked_def config_defs update_defs feedX_def case_defs)

section \<open>The conversion API\<close>

text \<open>
  C10.  With the argument \<open>source\<close> left out, \<^verbatim>\<open>adjust_token_rate\<close> and
  \<^verbatim>\<open>convert_token_value\<close> raise the invalid-source error of \<^verbatim>\<open>get_exchange_rate\<close>,
  whatever the asset, price, amount and currencies are; nothing but the lazy start has
  happened by then.  So a call of either that returns a value was made with a source that
  \<^verbatim>\<open>get_exchange_rate\<close> accepts: \<^verbatim>\<open>"default"\<close>, \<^verbatim>\<open>"config"\<close> or the name of a stored
  snapshot.
\<close>

theorem omitted_source_raises_invalid_source:
  "adjust_token_rate s asset_name price None = (Inl InvalidSource, if started s then s else start s)
   \<and> convert_token_value s amount from_currency to_currency None
       = (Inl InvalidSource, if started s then s else start s)
   \<and> ((\<exists>v. fst (adjust_token_rate s asset_name price source) = Inr v) \<longrightarrow> source_resolves s source)
   \<and> ((\<exists>v. fst (convert_token_value s amount from_currency to_currency source) = Inr v)
        \<longrightarrow> source_resolves s source)"
  by (auto simp: api_defs Let_def split: option.splits if_splits)

theorem omitted_source_raises_invalid_source_witness:
  "fst (adjust_token_rate scenario_A ''btc'' (Num 2) (Some ''config'')) = Inr (Num 2)
   \<and> fst (convert_token_value scenario_B (Num 2) ''usdt'' ''btc'' (Some ''feedX''))
       = Inr (Num (1 / 25000))
   \<and> source_resolves scenario_A (Some ''config'')
   \<and> source_resolves scenario_B (Some ''feedX'')"
proof -
  have a: "fst (adjust_token_rate scenario_A ''btc'' (Num 2) (Some ''config'')) = Inr (Num 2)"
    by (simp add: scenario_A_eval api_defs case_defs)
  have c: "fst (convert_token_value scenario_B (Num 2) ''usdt'' ''btc'' (Some ''feedX''))
             = Inr (Num (1 / 25000))"
    by (simp add: scenario_B_eval scenario_A_eval api_defs case_defs dict_get_def)
  from a c
    omitted_source_raises_invalid_source
      [of scenario_A "''btc''" "Num 2" "Num 2" "''usdt''" "''btc''" "Some ''config''"]
    omitted_source_raises_invalid_source
      [of scenario_B "''btc''" "Num 2" "Num 2" "''usdt''" "''btc''" "Some ''feedX''"]
  show ?thesis by simp
qed

subsection \<open>\<^verbatim>\<open>get_exchange_rate\<close>\<close>

text \<open>
  C7, as stated, fails: a feed may be called \<^verbatim>\<open>config\<close>, and the names of the stored
  snapshots are tested before \<^verbatim>\<open>"config"\<close>.  After such a feed has been polled once,
  \<^verbatim>\<open>get_exchange_rate("config")\<close> is the snapshot of that feed, not the merged rates
  (which are empty here).
\<close>

theorem get_exchange_rate_config_shadowed:
  "fst (get_exchange_rate shadowed (Some ''config'')) = Inr [(''BTC'', PFloat (Num 7))]
   \<and> fst (get_exchange_rate shadowed (Some ''config'')) \<noteq> Inr (exchange_rate shadowed)"
  by (simp add: shadowed_eval get_exchange_rate_def)

text \<open>
  C7, amended: the three kinds of source are told apart in the order \<^verbatim>\<open>"default"\<close>, name
  of a stored snapshot, \<^verbatim>\<open>"config"\<close>.  \<^verbatim>\<open>"default"\<close> gives the snapshot of the default
  feed, and an error if there is none; any other name of a stored snapshot gives that
  snapshot; \<^verbatim>\<open>"config"\<close> gives the merged rates unless a snapshot is stored under that
  name; every other source, the omitted one included, raises the invalid-source error.
\<close>

theorem get_exchange_rate_by_precedence:
  "fst (get_exchange_rate s (Some ''default'')) =
     (case map_of (all_data_feed_exchange_rate s) DEFAULT_DATA_FEED_NAME of
        Some snapshot \<Rightarrow> Inr snapshot
      | None \<Rightarrow> Inl DataFeedNameNotValid)
   \<and> (src \<noteq> ''default'' \<and> map_of (all_data_feed_exchange_rate s) src = Some snapshot
        \<longrightarrow> get_exchange_rate s (Some src) = (Inr snapshot, s))
   \<and> (map_of (all_data_feed_exchange_rate s) ''config'' = None
        \<longrightarrow> get_exchange_rate s (Some ''config'') = (Inr (exchange_rate s), s))
   \<and> (src \<noteq> ''default'' \<and> src \<noteq> ''config'' \<and> map_of (all_data_feed_exchange_rate s) src = None
        \<longrightarrow> get_exchange_rate s (Some src) = (Inl InvalidSource, s))
   \<and> get_exchange_rate s None = (Inl InvalidSource, s)"
  by (auto simp: get_exchange_rate_def split: option.splits)

theorem get_exchange_rate_by_precedence_witness:
  "get_exchange_rate scenario_B (Some ''feedX'')
     = (Inr [(''BTC'', PFloat (Num 50000)), (''USDT'', PFloat (Num 1))], scenario_B)
   \<and> get_exchange_rate scenario_B (Some ''config'') = (Inr (exchange_rate scenario_B), scenario_B)
   \<and> get_exchange_rate scenario_B (Some ''unknownSource'') = (Inl InvalidSource, scenario_B)
   \<and> fst (get_exchange_rate scenario_B (Some ''default'')) = Inl DataFeedNameNotValid"
proof -
  have all: "all_data_feed_exchange_rate scenario_B
               = [(''feedX'', [(''BTC'', PFloat (Num 50000)), (''USDT'', PFloat (Num 1))])]"
    by (simp add: scenario_B_eval)
  have h1: "''feedX'' \<noteq> ''default'' \<and> map_of (all_data_feed_exchange_rate scenario_B) ''feedX''
              = Some [(''BTC'', PFloat (Num 50000)), (''USDT'', PFloat (Num 1))]"
    by (simp add: all)
  have h2: "map_of (all_data_feed_exchange_rate scenario_B) ''config'' = None"
    by (simp add: all)
  have h3: "''unknownSource'' \<noteq> ''default'' \<and> ''unknownSource'' \<noteq> ''config''
            \<and> map_of (all_data_feed_exchange_rate scenario_B) ''unknownSource'' = None"
    by (simp add: all)
  have h4: "map_of (all_data_feed_exchange_rate scenario_B) DEFAULT_DATA_FEED_NAME = None"
    by (simp add: all DEFAULT_DATA_FEED_NAME_def)
  from h1 h2 h3 h4
    get_exchange_rate_by_precedence
      [of scenario_B "''feedX''" "[(''BTC'', PFloat (Num 50000)), (''USDT'', PFloat (Num 1))]"]
    get_exchange_rate_by_precedence [of scenario_B "''unknownSource''"]
  show ?thesis by simp
qed

subsection \<open>\<^verbatim>\<open>convert_token_value\<close>\<close>

lemma get_exchange_rate_lazy_start:
  "get_exchange_rate (if \<not> started s then start s else s) source =
     (fst (get_exchange_rate s source),
      if \<not> started s then start (snd (get_exchange_rate s source))
      else snd (get_exchange_rate s source))"
  by (simp add: get_exchange_rate_def start_def stop_def split: option.splits)

lemma convert_token_value_resolved:
  assumes "fst (get_exchange_rate s source) = Inr rates"
      and "\<not> eth_weth (upper from_currency) (upper to_currency)"
  shows "fst (convert_token_value s amount from_currency to_currency source) =
     (case isnan (dict_get rates (upper from_currency) (PFloat NaN)) of
        Inl e \<Rightarrow> Inl e
      | Inr True \<Rightarrow> Inl ConversionError
      | Inr False \<Rightarrow>
          (case isnan (dict_get rates (upper to_currency) (PFloat NaN)) of
             Inl e \<Rightarrow> Inl e
           | Inr True \<Rightarrow> Inl ConversionError
           | Inr False \<Rightarrow>
               mul_div amount (dict_get rates (upper from_currency) (PFloat NaN))
                 (dict_get rates (upper to_currency) (PFloat NaN))))"
proof -
  from assms(2) have ne: "\<not> (upper from_currency = ''ETH'' \<and> upper to_currency = ''WETH''
        \<or> upper from_currency = ''WETH'' \<and> upper to_currency = ''ETH'')"
    by (simp add: eth_weth_def)
  show ?thesis
    unfolding convert_token_value_def get_exchange_rate_lazy_start Let_def
    apply (simp only: assms(1) prod.case sum.case if_not_P[OF ne])
    apply (simp split: sum.split bool.split)
    done
qed

text \<open>
  C3, as stated, fails: \<^verbatim>\<open>convert_token_value(x, "ETH", "WETH")\<close> leaves the source
  out, \<^verbatim>\<open>get_exchange_rate\<close> is called before the two currencies are compared, and it
  raises.
\<close>

theorem eth_weth_omitted_source:
  "fst (convert_token_value fresh (Num 5) ''ETH'' ''WETH'' None) = Inl InvalidSource
   \<and> fst (convert_token_value fresh (Num 5) ''WETH'' ''ETH'' None) \<noteq> Inr (Num 5)"
  by (simp add: fresh_eval class_state_def api_defs)

text \<open>
  C3, amended: whenever the source is one that \<^verbatim>\<open>get_exchange_rate\<close> accepts, with
  whatever table \<open>rates\<close> as its result, converting \<open>x\<close> between \<^verbatim>\<open>ETH\<close> and \<^verbatim>\<open>WETH\<close>
  in either direction returns \<open>x\<close>, and does no more to the state than the lazy start.
\<close>

theorem eth_weth_unchanged:
  "fst (get_exchange_rate s source) = Inr rates \<Longrightarrow>
   convert_token_value s x ''ETH'' ''WETH'' source = (Inr x, if started s then s else start s)
   \<and> convert_token_value s x ''WETH'' ''ETH'' source = (Inr x, if started s then s else start s)"
  by (auto simp: api_defs case_defs split: option.splits if_splits)

theorem eth_weth_unchanged_witness:
  "fst (get_exchange_rate fresh (Some ''config'')) = Inr []
   \<and> fst (convert_token_value fresh NaN ''ETH'' ''WETH'' (Some ''config'')) = Inr NaN
   \<and> fst (convert_token_value fresh (Num 5) ''WETH'' ''ETH'' (Some ''config'')) = Inr (Num 5)"
proof -
  have h: "fst (get_exchange_rate fresh (Some ''config'')) = Inr []"
    by (simp add: fresh_eval class_state_def get_exchange_rate_def)
  from h eth_weth_unchanged [OF h, of NaN] eth_weth_unchanged [OF h, of "Num 5"]
  show ?thesis by simp
qed

text \<open>
  C4, as stated, fails on the pair the method sets apart: with no rate for \<^verbatim>\<open>ETH\<close> nor
  for \<^verbatim>\<open>WETH\<close> in the merged rates, so that both default to \<^verbatim>\<open>nan\<close>, the conversion
  from one to the other returns the amount and raises nothing.
\<close>

theorem eth_weth_without_rates:
  "dict_get (exchange_rate fresh) ''ETH'' (PFloat NaN) = PFloat NaN
   \<and> dict_get (exchange_rate fresh) ''WETH'' (PFloat NaN) = PFloat NaN
   \<and> fst (convert_token_value fresh (Num 5) ''ETH'' ''WETH'' (Some ''config'')) = Inr (Num 5)"
  by (simp add: fresh_eval class_state_def api_defs case_defs dict_get_def)

text \<open>
  C4, amended: let the source be accepted, with table \<open>rates\<close> (the merged rates when the
  source is \<^verbatim>\<open>"config"\<close>), and let the pair not be \<^verbatim>\<open>ETH\<close>/\<^verbatim>\<open>WETH\<close>.  Then the
  conversion raises the conversion error when the rate of the first currency is \<^verbatim>\<open>nan\<close>
  or absent, and when the rate of the first is a number and that of the second is \<^verbatim>\<open>nan\<close>
  or absent.  No rate is ever defaulted to a number: a value is returned only if both
  currencies have a number stored in the table, and it is the amount times the first
  divided by the second.
\<close>

theorem nan_rate_is_conversion_error:
  assumes "fst (get_exchange_rate s source) = Inr rates"
      and "\<not> eth_weth (upper from_currency) (upper to_currency)"
  shows "(dict_get rates (upper from_currency) (PFloat NaN) = PFloat NaN
            \<longrightarrow> fst (convert_token_value s amount from_currency to_currency source)
                  = Inl ConversionError)
       \<and> ((\<exists>r. dict_get rates (upper from_currency) (PFloat NaN) = PFloat (Num r))
           \<and> dict_get rates (upper to_currency) (PFloat NaN) = PFloat NaN
            \<longrightarrow> fst (convert_token_value s amount from_currency to_currency source)
                  = Inl ConversionError)
       \<and> (\<forall>v. fst (convert_token_value s amount from_currency to_currency source) = Inr v
            \<longrightarrow> (\<exists>f t. map_of rates (upper from_currency) = Some (PFloat (Num f))
                      \<and> map_of rates (upper to_currency) = Some (PFloat (Num t))
                      \<and> fdiv (fmul amount (Num f)) (Num t) = Inr v))"
proof -
  let ?f = "dict_get rates (upper from_currency) (PFloat NaN)"
  let ?t = "dict_get rates (upper to_currency) (PFloat NaN)"
  note r = convert_token_value_resolved [OF assms, of amount]
  show ?thesis
  proof (intro conjI impI allI)
    assume "?f = PFloat NaN"
    then show "fst (convert_token_value s amount from_currency to_currency source)
                 = Inl ConversionError"
      by (simp add: r)
  next
    assume "(\<exists>r. ?f = PFloat (Num r)) \<and> ?t = PFloat NaN"
    then show "fst (convert_token_value s amount from_currency to_currency source)
                 = Inl ConversionError"
      by (auto simp: r)
  next
    fix v
    assume v: "fst (convert_token_value s amount from_currency to_currency source) = Inr v"
    from v obtain f where f: "?f = PFloat (Num f)"
      unfolding r by (cases ?f rule: isnan.cases) (auto split: sum.splits bool.splits)
    from v f obtain t where t: "?t = PFloat (Num t)"
      unfolding r by (cases ?t rule: isnan.cases) (auto split: sum.splits bool.splits)
    from f have mf: "map_of rates (upper from_currency) = Some (PFloat (Num f))"
      by (auto simp: dict_get_def split: option.splits)
    from t have mt: "map_of rates (upper to_currency) = Some (PFloat (Num t))"
      by (auto simp: dict_get_def split: option.splits)
    from v f t have "fdiv (fmul amount (Num f)) (Num t) = Inr v"
      unfolding r by simp
    with mf mt
    show "\<exists>f t. map_of rates (upper from_currency) = Some (PFloat (Num f))
             \<and> map_of rates (upper to_currency) = Some (PFloat (Num t))
             \<and> fdiv (fmul amount (Num f)) (Num t) = Inr v"
      by blast
  qed
qed

theorem nan_rate_is_conversion_error_witness:
  "fst (get_exchange_rate scenario_B (Some ''config'')) = Inr (exchange_rate scenario_B)
   \<and> \<not> eth_weth (upper ''btc'') (upper ''eth'')
   \<and> fst (convert_token_value scenario_B (Num 3) ''eth'' ''btc'' (Some ''config''))
       = Inl ConversionError
   \<and> fst (convert_token_value scenario_B (Num 3) ''btc'' ''eth'' (Some ''config''))
       = Inl ConversionError
   \<and> fst (convert_token_value scenario_B (Num 3) ''btc'' ''usdt'' (Some ''config''))
       = Inr (Num 150000)"
proof -
  have b: "fst (get_exchange_rate scenario_B (Some ''config'')) = Inr (exchange_rate scenario_B)"
    by (simp add: scenario_B_eval scenario_A_eval get_exchange_rate_def)
  have p: "\<not> eth_weth (upper ''btc'') (upper ''eth'')"
    by (simp add: eth_weth_def case_defs)
  have p': "\<not> eth_weth (upper ''eth'') (upper ''btc'')"
    by (simp add: eth_weth_def case_defs)
  have q: "\<not> eth_weth (upper ''btc'') (upper ''usdt'')"
    by (simp add: eth_weth_def case_defs)
  have fb: "dict_get (exchange_rate scenario_B) (upper ''btc'') (PFloat NaN) = PFloat (Num 50000)
            \<and> dict_get (exchange_rate scenario_B) (upper ''eth'') (PFloat NaN) = PFloat NaN"
    by (simp add: scenario_B_eval scenario_A_eval dict_get_def case_defs)
  have v: "fst (convert_token_value scenario_B (Num 3) ''btc'' ''usdt'' (Some ''config''))
             = Inr (Num 150000)"
    by (simp add: scenario_B_eval scenario_A_eval api_defs case_defs dict_get_def)
  from b p fb v
    nan_rate_is_conversion_error [OF b p, of "Num 3"]
    nan_rate_is_conversion_error [OF b p', of "Num 3"]
    nan_rate_is_conversion_error [OF b q, of "Num 3"]
  show ?thesis by simp
qed

subsection \<open>\<^verbatim>\<open>adjust_token_rate\<close>\<close>

lemma adjust_token_rate_fst:
  "fst (adjust_token_rate s asset_name price source) =
     (case fst (get_exchange_rate s source) of
        Inl e \<Rightarrow> Inl e
      | Inr rates \<Rightarrow>
          if has_key (conversion_required s) (upper asset_name)
             \<and> has_key (exchange_rate s) (upper asset_name)
          then (case getitem rates (upper asset_name) of
                  Inl e \<Rightarrow> Inl e
                | Inr rate \<Rightarrow> val_mul rate price)
          else Inr price)"
proof -
  have c: "conversion_required (snd (get_exchange_rate s source)) = conversion_required s"
    "exchange_rate (snd (get_exchange_rate s source)) = exchange_rate s"
    by (simp_all add: get_exchange_rate_def split: option.splits)
  show ?thesis
    unfolding adjust_token_rate_def get_exchange_rate_lazy_start Let_def
    by (simp add: c start_def stop_def split: sum.split)
qed

text \<open>
  C2, as stated, fails in two ways.  It is claimed for every source, but with the source
  left out an asset that is not in \<open>conversion_required\<close> gets the invalid-source error,
  not its price back.  And the second membership test of the method is in the merged
  rates, not in the table that the source resolves to: in the state \<open>stale\<close> the asset
  \<^verbatim>\<open>BTC\<close> is in \<open>conversion_required\<close> and in the snapshot of \<^verbatim>\<open>feedX\<close>, at 50000, and the
  price comes back unchanged.
\<close>

theorem adjust_token_rate_needs_source:
  "\<not> has_key (conversion_required fresh) (upper ''XYZ'')
   \<and> fst (adjust_token_rate fresh ''XYZ'' (Num 2) None) = Inl InvalidSource
   \<and> has_key (conversion_required stale) (upper ''BTC'')
   \<and> fst (get_exchange_rate stale (Some ''feedX''))
       = Inr [(''BTC'', PFloat (Num 50000)), (''USDT'', PFloat (Num 1))]
   \<and> fst (adjust_token_rate stale ''BTC'' (Num 2) (Some ''feedX'')) = Inr (Num 2)"
  by (simp add: fresh_eval class_state_def adjust_token_rate_fst get_exchange_rate_def
        has_key_def stale_eval case_defs)

text \<open>
  C2, amended: for every asset and price.  When the source is one that
  \<^verbatim>\<open>get_exchange_rate\<close> accepts (\<^verbatim>\<open>"default"\<close> with the snapshot of the default feed
  stored, the name of a stored snapshot, or \<^verbatim>\<open>"config"\<close>), with table \<open>rates\<close>: if the
  upper-cased asset is in \<open>conversion_required\<close> and in the merged rates, and \<open>rates\<close> has
  a number for it, the result is that number times the price; if the asset is not in
  \<open>conversion_required\<close>, the result is the price.  When the source is not accepted, the
  method raises the error of \<^verbatim>\<open>get_exchange_rate\<close> whatever the asset is: the
  data-feed-name error for \<^verbatim>\<open>"default"\<close>, the invalid-source error for every other
  source, the omitted one included.
\<close>

theorem adjust_token_rate_by_source:
  "(fst (get_exchange_rate s source) = Inr rates \<longrightarrow>
      (has_key (conversion_required s) (upper asset_name)
       \<and> has_key (exchange_rate s) (upper asset_name)
       \<and> map_of rates (upper asset_name) = Some (PFloat rate)
         \<longrightarrow> fst (adjust_token_rate s asset_name price source) = Inr (fmul rate price))
      \<and> (\<not> has_key (conversion_required s) (upper asset_name)
         \<longrightarrow> fst (adjust_token_rate s asset_name price source) = Inr price))
   \<and> (\<not> source_resolves s source \<longrightarrow>
        fst (adjust_token_rate s asset_name price source)
          = Inl (if source = Some ''default'' then DataFeedNameNotValid else InvalidSource))
   \<and> source_resolves s source = (\<exists>table. fst (get_exchange_rate s source) = Inr table)"
proof (intro conjI)
  show "fst (get_exchange_rate s source) = Inr rates \<longrightarrow>
      (has_key (conversion_required s) (upper asset_name)
       \<and> has_key (exchange_rate s) (upper asset_name)
       \<and> map_of rates (upper asset_name) = Some (PFloat rate)
         \<longrightarrow> fst (adjust_token_rate s asset_name price source) = Inr (fmul rate price))
      \<and> (\<not> has_key (conversion_required s) (upper asset_name)
         \<longrightarrow> fst (adjust_token_rate s asset_name price source) = Inr price)"
    by (simp add: adjust_token_rate_fst getitem_def)
next
  show "\<not> source_resolves s source \<longrightarrow>
        fst (adjust_token_rate s asset_name price source)
          = Inl (if source = Some ''default'' then DataFeedNameNotValid else InvalidSource)"
  proof
    assume "\<not> source_resolves s source"
    then have "fst (get_exchange_rate s source)
        = Inl (if source = Some ''default'' then DataFeedNameNotValid else InvalidSource)"
      by (auto simp: source_resolves_def get_exchange_rate_def has_key_def
          split: option.splits if_splits)
    then show "fst (adjust_token_rate s asset_name price source)
        = Inl (if source = Some ''default'' then DataFeedNameNotValid else InvalidSource)"
      by (simp add: adjust_token_rate_fst)
  qed
next
  show "source_resolves s source = (\<exists>table. fst (get_exchange_rate s source) = Inr table)"
    by (auto simp: source_resolves_def get_exchange_rate_def has_key_def
          split: option.splits if_splits)
qed

theorem adjust_token_rate_by_source_witness:
  "fst (get_exchange_rate btc_tracked (Some ''feedX''))
      = Inr [(''BTC'', PFloat (Num 50000)), (''USDT'', PFloat (Num 1))]
   \<and> has_key (conversion_required btc_tracked) (upper ''btc'')
   \<and> has_key (exchange_rate btc_tracked) (upper ''btc'')
   \<and> \<not> has_key (conversion_required btc_tracked) (upper ''usdt'')
   \<and> fst (adjust_token_rate btc_tracked ''btc'' (Num 3) (Some ''feedX'')) = Inr (Num 150000)
   \<and> fst (adjust_token_rate btc_tracked ''usdt'' (Num 3) (Some ''feedX'')) = Inr (Num 3)
   \<and> \<not> source_resolves btc_tracked (Some ''default'')
   \<and> fst (adjust_token_rate btc_tracked ''usdt'' (Num 3) (Some ''default''))
       = Inl DataFeedNameNotValid
   \<and> \<not> source_resolves btc_tracked (Some ''unknownSource'')
   \<and> fst (adjust_token_rate btc_tracked ''usdt'' (Num 3) (Some ''unknownSource''))
       = Inl InvalidSource
   \<and> \<not> source_resolves btc_tracked None
   \<and> fst (adjust_token_rate btc_tracked ''usdt'' (Num 3) None) = Inl InvalidSource"
proof -
  have g: "fst (get_exchange_rate btc_tracked (Some ''feedX''))
      = Inr [(''BTC'', PFloat (Num 50000)), (''USDT'', PFloat (Num 1))]"
    by (simp add: btc_tracked_eval get_exchange_rate_def)
  have h: "has_key (conversion_required btc_tracked) (upper ''btc'')
     \<and> has_key (exchange_rate btc_tracked) (upper ''btc'')
     \<and> map_of [(''BTC'', PFloat (Num 50000)), (''USDT'', PFloat (Num 1))] (upper ''btc'')
         = Some (PFloat (Num 50000))
     \<and> \<not> has_key (conversion_required btc_tracked) (upper ''usdt'')"
    by (simp add: btc_tracked_eval has_key_def case_defs)
  have n: "\<not> source_resolves btc_tracked (Some ''default'')
     \<and> \<not> source_resolves btc_tracked (Some ''unknownSource'')
     \<and> \<not> source_resolves btc_tracked None"
    by (simp add: btc_tracked_eval source_resolves_def has_key_def DEFAULT_DATA_FEED_NAME_def)
  from g h n
    adjust_token_rate_by_source
      [of btc_tracked "Some ''feedX''" "[(''BTC'', PFloat (Num 50000)), (''USDT'', PFloat (Num 1))]"
          "''btc''" "Num 50000" "Num 3"]
    adjust_token_rate_by_source
      [of btc_tracked "Some ''feedX''" "[(''BTC'', PFloat (Num 50000)), (''USDT'', PFloat (Num 1))]"
          "''usdt''" "Num 1" "Num 3"]
    adjust_token_rate_by_source [of btc_tracked "Some ''default''" "[]" "''usdt''" "Num 1" "Num 3"]
    adjust_token_rate_by_source
      [of btc_tracked "Some ''unknownSource''" "[]" "''usdt''" "Num 1" "Num 3"]
    adjust_token_rate_by_source [of btc_tracked None "[]" "''usdt''" "Num 1" "Num 3"]
  show ?thesis by simp
qed

section \<open>Dictionaries and keys\<close>

lemma upper_char_idem: "upper_char (upper_char c) = upper_char c"
  by (simp add: upper_char_def ascii_lowercase_def ascii_uppercase_def)

lemma upper_idem: "upper (upper k) = upper k"
  by (simp add: upper_def upper_char_idem)

lemma dict_merge_Cons: "dict_merge a ((k, v) # b) = dict_merge (AList.update k v a) b"
  by (simp add: dict_merge_def)

lemma dict_merge_lookup:
  "distinct (map fst b) \<Longrightarrow>
   map_of (dict_merge a b) k = (case map_of b k of Some v \<Rightarrow> Some v | None \<Rightarrow> map_of a k)"
proof (induction b arbitrary: a)
  case Nil
  then show ?case by (simp add: dict_merge_def)
next
  case (Cons p b)
  obtain k' v' where p: "p = (k', v')" by (cases p)
  from Cons.prems p have nk: "map_of b k' = None" and d: "distinct (map fst b)"
    by (auto simp: map_of_eq_None_iff)
  show ?case
    using Cons.IH [OF d, of "AList.update k' v' a"] nk
    by (auto simp: p dict_merge_Cons update_conv' split: option.splits)
qed

lemma dict_merge_keys:
  "fst ` set (dict_merge a b) = fst ` set a \<union> fst ` set b"
proof (induction b arbitrary: a)
  case Nil
  then show ?case by (simp add: dict_merge_def)
next
  case (Cons p b)
  obtain k' v' where p: "p = (k', v')" by (cases p)
  show ?case
    using Cons.IH [of "AList.update k' v' a"]
    by (auto simp: p dict_merge_Cons dom_update)
qed

lemma dict_merge_distinct:
  "distinct (map fst a) \<Longrightarrow> distinct (map fst (dict_merge a b))"
proof (induction b arbitrary: a)
  case Nil
  then show ?case by (simp add: dict_merge_def)
next
  case (Cons p b)
  obtain k' v' where p: "p = (k', v')" by (cases p)
  show ?case
    using Cons.IH [of "AList.update k' v' a"] Cons.prems
    by (simp add: p dict_merge_Cons distinct_update)
qed

lemma keys_normal_update:
  "keys_normal d \<Longrightarrow> keys_normal (AList.update (upper k) v d)"
  by (auto simp: keys_normal_def distinct_update update_keys list_all_iff upper_idem)

lemma upper_keys_normal:
  "upper_keys kvs acc = Inr d \<Longrightarrow> keys_normal acc \<Longrightarrow> keys_normal d"
  by (induction kvs acc rule: upper_keys.induct) (auto simp: keys_normal_update)

lemma keys_normal_Nil: "keys_normal []"
  by (simp add: keys_normal_def)

lemma keys_normal_merge:
  "keys_normal a \<Longrightarrow> keys_normal b \<Longrightarrow> keys_normal (dict_merge a b)"
proof -
  assume a: "keys_normal a" and b: "keys_normal b"
  have "set (map fst (dict_merge a b)) = set (map fst a) \<union> set (map fst b)"
    using dict_merge_keys [of a b] by simp
  with a b show ?thesis
    by (auto simp: keys_normal_def dict_merge_distinct list_all_iff simp del: set_map)
qed

lemma read_config_normal:
  "read_config s = Inr (cr, gc) \<Longrightarrow> keys_normal cr \<and> keys_normal gc"
  by (auto simp: read_config_def Let_def keys_normal_Nil split: option.splits sum.splits prod.splits
        dest: upper_keys_normal)

lemma read_config_data_feeds:
  "read_config (s\<lparr>data_feeds := fs\<rparr>) = read_config s"
  by (simp add: read_config_def)

section \<open>Configuration resolution\<close>

lemma default_rates_lookup:
  "default_rates d acc = Inr r \<Longrightarrow> distinct (map fst d) \<Longrightarrow>
   map_of r k = (case map_of d k of Some v \<Rightarrow> map_of v ''default'' | None \<Rightarrow> map_of acc k)"
proof (induction d acc rule: default_rates.induct)
  case (1 acc)
  then show ?case by simp
next
  case (2 k' v kvs acc)
  from "2.prems" obtain dv where dv: "map_of v ''default'' = Some dv"
    and r: "default_rates kvs (AList.update k' dv acc) = Inr r"
    by (auto simp: getitem_def split: option.splits sum.splits)
  from "2.prems" have nk: "map_of kvs k' = None" and d: "distinct (map fst kvs)"
    by (auto simp: map_of_eq_None_iff)
  have g: "getitem v ''default'' = Inr dv" by (simp add: getitem_def dv)
  show ?case
    using "2.IH" [OF g r d] nk dv
    by (auto simp: update_conv' split: option.splits)
qed

lemma default_rates_keys:
  "default_rates d acc = Inr r \<Longrightarrow> fst ` set r = fst ` set acc \<union> fst ` set d"
proof (induction d acc rule: default_rates.induct)
  case (1 acc)
  then show ?case by simp
next
  case (2 k' v kvs acc)
  from "2.prems" obtain dv where g: "getitem v ''default'' = Inr dv"
    and r: "default_rates kvs (AList.update k' dv acc) = Inr r"
    by (auto split: sum.splits)
  show ?case using "2.IH" [OF g r] by (auto simp: dom_update)
qed

text \<open>What \<open>init_config\<close> does, by the point where it stops.\<close>

lemma init_config_cases:
  "init_config s =
     (let s1 = s\<lparr>data_feeds := (case data_feeds_override s of
                                  None \<Rightarrow> builtin_data_feeds s | Some fs \<Rightarrow> fs)\<rparr>
      in case read_config s of
           Inl e \<Rightarrow> s1\<lparr>log := log s @ [ConfigError]\<rparr>
         | Inr (cr, gc) \<Rightarrow>
             (case default_rates (dict_merge gc cr) [] of
                Inl e \<Rightarrow> s1\<lparr>conversion_required := cr, global_config := dict_merge gc cr,
                             log := log s @ [ConfigError]\<rparr>
              | Inr r \<Rightarrow> s1\<lparr>conversion_required := cr, global_config := dict_merge gc cr,
                            exchange_rate := r\<rparr>))"
  by (simp add: init_config_def read_config_data_feeds Let_def split: sum.splits prod.splits)

lemma init_config_superset: "config_superset s \<Longrightarrow> config_superset (init_config s)"
proof (cases "read_config s")
  case (Inl e)
  then show "config_superset s \<Longrightarrow> ?thesis"
    by (simp add: init_config_cases config_superset_def)
next
  case (Inr p)
  obtain cr gc where p: "p = (cr, gc)" by (cases p)
  from Inr p have "keys_normal cr" using read_config_normal by blast
  then have d: "distinct (map fst cr)" by (simp add: keys_normal_def)
  have "list_all (\<lambda>k. map_of (dict_merge gc cr) k = map_of cr k) (map fst cr)"
    by (auto simp: list_all_iff dict_merge_lookup [OF d] split: option.splits)
      (metis d map_of_eq_None_iff image_eqI fst_conv option.distinct(1))
  then show ?thesis
    by (simp add: init_config_cases Inr p config_superset_def Let_def split: sum.splits)
qed

lemma init_config_keys_normal:
  "keys_normal (global_config s) \<Longrightarrow> keys_normal (global_config (init_config s))"
  by (auto simp: init_config_cases Let_def keys_normal_merge split: sum.splits prod.splits
        dest: read_config_normal)

section \<open>The loops of a refresh\<close>

text \<open>One iteration of the inner loop that does not raise.\<close>

lemma update_assets_step:
  assumes "update_assets df ((k, config) # rest) s h = (None, s', h')"
  shows "update_assets df rest
           (if names_feed config df then
              if truthy (get_price df (upper k))
              then s\<lparr>exchange_rate :=
                       AList.update (upper k) (get_price df (upper k)) (exchange_rate s)\<rparr>
              else if show_update_exchange_rates_from_data_feeds_errors s
                   then s\<lparr>log := log s @ [NoDataFound (upper k) (name df)]\<rparr>
                   else s
            else s)
           (h \<or> names_feed config df \<and> \<not> truthy (get_price df (upper k)))
         = (None, s', h')"
proof (cases "map_of config ''source''")
  case None
  with assms show ?thesis by (simp add: getitem_def)
next
  case (Some v)
  show ?thesis
  proof (cases v)
    case (PStr src)
    with assms Some show ?thesis
      by (auto simp: getitem_def names_feed_def Let_def split: if_splits)
  qed (use assms Some in \<open>simp_all add: getitem_def\<close>)
qed

text \<open>The fields that the loops leave alone.\<close>

lemma update_assets_frame:
  "update_assets df gc s h = (e, s', h') \<Longrightarrow>
     global_config s' = global_config s
   \<and> conversion_required s' = conversion_required s
   \<and> data_feeds s' = data_feeds s
   \<and> all_data_feed_exchange_rate s' = all_data_feed_exchange_rate s
   \<and> show_update_exchange_rates_from_data_feeds_errors s'
       = show_update_exchange_rates_from_data_feeds_errors s
   \<and> show_wait_till_ready_errors s' = show_wait_till_ready_errors s
   \<and> (\<not> show_update_exchange_rates_from_data_feeds_errors s \<longrightarrow> log s' = log s)
   \<and> filter is_not_ready (log s') = filter is_not_ready (log s)"
proof (induction df gc s h arbitrary: e s' h' rule: update_assets.induct)
  case (1 df s has_errors)
  then show ?case by simp
next
  case (2 df k config rest s has_errors)
  show ?case
  proof (cases "getitem config ''source''")
    case (Inl x)
    with "2.prems" show ?thesis by simp
  next
    case (Inr v)
    show ?thesis
    proof (cases v)
      case (PStr src)
      show ?thesis
      proof (cases "lower src = lower (name df)")
        case False
        with "2.prems" Inr PStr have "update_assets df rest s has_errors = (e, s', h')"
          by simp
        from "2.IH"(3) [OF refl Inr PStr False this] show ?thesis .
      next
        case True
        show ?thesis
        proof (cases "truthy (get_price df (upper k))")
          case t: True
          let ?s1 = "s\<lparr>exchange_rate := AList.update (upper k) (get_price df (upper k)) (exchange_rate s)\<rparr>"
          from "2.prems" Inr PStr True t have "update_assets df rest ?s1 has_errors = (e, s', h')"
            by (simp add: Let_def)
          from "2.IH"(1) [OF refl Inr PStr True refl t this] show ?thesis by simp
        next
          case f: False
          let ?s1 = "if show_update_exchange_rates_from_data_feeds_errors s
                  then s\<lparr>log := log s @ [NoDataFound (upper k) (name df)]\<rparr> else s"
          from "2.prems" Inr PStr True f have "update_assets df rest ?s1 True = (e, s', h')"
            by (simp add: Let_def)
          from "2.IH"(2) [OF refl Inr PStr True refl f this] show ?thesis
            by (simp split: if_splits)
        qed
      qed
    qed (use "2.prems" Inr in simp_all)
  qed
qed

lemma update_feeds_frame:
  "update_feeds dfs s h = (e, s', h') \<Longrightarrow>
     global_config s' = global_config s
   \<and> conversion_required s' = conversion_required s
   \<and> data_feeds s' = data_feeds s
   \<and> all_data_feed_exchange_rate s' = all_data_feed_exchange_rate s
   \<and> show_update_exchange_rates_from_data_feeds_errors s'
       = show_update_exchange_rates_from_data_feeds_errors s
   \<and> show_wait_till_ready_errors s' = show_wait_till_ready_errors s
   \<and> (\<not> show_update_exchange_rates_from_data_feeds_errors s \<longrightarrow> log s' = log s)
   \<and> filter is_not_ready (log s') = filter is_not_ready (log s)"
proof (induction dfs arbitrary: s h)
  case Nil
  then show ?case by simp
next
  case (Cons df dfs)
  obtain e1 s1 h1 where a: "update_assets df (global_config s) s h = (e1, s1, h1)"
    by (cases "update_assets df (global_config s) s h") auto
  note f = update_assets_frame [OF a]
  show ?case
  proof (cases e1)
    case None
    with Cons.prems a have "update_feeds dfs s1 h1 = (e, s', h')" by simp
    from Cons.IH [OF this] f show ?thesis by simp
  next
    case (Some x)
    with Cons.prems a have "s' = s1" by simp
    with f show ?thesis by simp
  qed
qed

lemma store_snapshots_frame:
  "global_config (store_snapshots dfs s) = global_config s
   \<and> conversion_required (store_snapshots dfs s) = conversion_required s
   \<and> data_feeds (store_snapshots dfs s) = data_feeds s
   \<and> exchange_rate (store_snapshots dfs s) = exchange_rate s
   \<and> show_update_exchange_rates_from_data_feeds_errors (store_snapshots dfs s)
       = show_update_exchange_rates_from_data_feeds_errors s
   \<and> show_wait_till_ready_errors (store_snapshots dfs s) = show_wait_till_ready_errors s
   \<and> log (store_snapshots dfs s) = log s"
  by (induction dfs arbitrary: s) simp_all

lemma wait_feeds_frame:
  "global_config (wait_feeds dfs t s) = global_config s
   \<and> conversion_required (wait_feeds dfs t s) = conversion_required s
   \<and> data_feeds (wait_feeds dfs t s) = data_feeds s
   \<and> exchange_rate (wait_feeds dfs t s) = exchange_rate s
   \<and> all_data_feed_exchange_rate (wait_feeds dfs t s) = all_data_feed_exchange_rate s
   \<and> show_update_exchange_rates_from_data_feeds_errors (wait_feeds dfs t s)
       = show_update_exchange_rates_from_data_feeds_errors s
   \<and> filter is_no_data (log (wait_feeds dfs t s)) = filter is_no_data (log s)"
  by (induction dfs arbitrary: s t) simp_all

lemma wait_feeds_quiet:
  "\<not> show_wait_till_ready_errors s \<Longrightarrow> wait_feeds dfs t s = s"
  by (induction dfs arbitrary: t) simp_all

section \<open>What each operation leaves alone\<close>

lemma init_config_frame:
  "show_update_exchange_rates_from_data_feeds_errors (init_config s)
     = show_update_exchange_rates_from_data_feeds_errors s
   \<and> show_wait_till_ready_errors (init_config s) = show_wait_till_ready_errors s
   \<and> filter is_no_data (log (init_config s)) = filter is_no_data (log s)
   \<and> filter is_not_ready (log (init_config s)) = filter is_not_ready (log s)"
  by (simp add: init_config_cases Let_def split: sum.splits prod.splits)

lemma get_exchange_rate_frame:
  "global_config (snd (get_exchange_rate s source)) = global_config s
   \<and> conversion_required (snd (get_exchange_rate s source)) = conversion_required s
   \<and> show_update_exchange_rates_from_data_feeds_errors (snd (get_exchange_rate s source))
       = show_update_exchange_rates_from_data_feeds_errors s
   \<and> show_wait_till_ready_errors (snd (get_exchange_rate s source)) = show_wait_till_ready_errors s
   \<and> filter is_no_data (log (snd (get_exchange_rate s source))) = filter is_no_data (log s)
   \<and> filter is_not_ready (log (snd (get_exchange_rate s source))) = filter is_not_ready (log s)"
  by (simp add: get_exchange_rate_def split: option.splits)

lemma adjust_token_rate_snd:
  "snd (adjust_token_rate s a p source)
     = snd (get_exchange_rate (if \<not> started s then start s else s) source)"
proof -
  obtain r s2 where g: "get_exchange_rate (if \<not> started s then start s else s) source = (r, s2)"
    by (cases "get_exchange_rate (if \<not> started s then start s else s) source") auto
  show ?thesis
    unfolding adjust_token_rate_def Let_def g
    by (cases r) (simp_all split: sum.split)
qed

lemma convert_token_value_snd:
  "snd (convert_token_value s x f t source)
     = snd (get_exchange_rate (if \<not> started s then start s else s) source)"
proof -
  obtain r s2 where g: "get_exchange_rate (if \<not> started s then start s else s) source = (r, s2)"
    by (cases "get_exchange_rate (if \<not> started s then start s else s) source") auto
  show ?thesis
    unfolding convert_token_value_def Let_def g
    by (cases r) (simp_all split: sum.split bool.split)
qed

lemma update_frame:
  "global_config (snd (update_exchange_rates_from_data_feeds s)) = global_config s
   \<and> conversion_required (snd (update_exchange_rates_from_data_feeds s)) = conversion_required s
   \<and> show_wait_till_ready_errors (snd (update_exchange_rates_from_data_feeds s))
       = show_wait_till_ready_errors s
   \<and> filter is_not_ready (log (snd (update_exchange_rates_from_data_feeds s)))
       = filter is_not_ready (log s)
   \<and> (\<not> show_update_exchange_rates_from_data_feeds_errors s \<longrightarrow>
        \<not> show_update_exchange_rates_from_data_feeds_errors
            (snd (update_exchange_rates_from_data_feeds s))
        \<and> filter is_no_data (log (snd (update_exchange_rates_from_data_feeds s)))
            = filter is_no_data (log s))"
proof -
  obtain e s' h where u: "update_feeds (data_feeds s) (store_snapshots (data_feeds s) s) False
      = (e, s', h)"
    by (cases "update_feeds (data_feeds s) (store_snapshots (data_feeds s) s) False") auto
  note f = update_feeds_frame [OF u] and g = store_snapshots_frame [of "data_feeds s" s]
  show ?thesis
    using f g by (cases e) (simp_all add: update_exchange_rates_from_data_feeds_def u)
qed

lemma wait_till_ready_frame:
  "global_config (wait_till_ready t s) = global_config s
   \<and> conversion_required (wait_till_ready t s) = conversion_required s
   \<and> show_update_exchange_rates_from_data_feeds_errors (wait_till_ready t s)
       = show_update_exchange_rates_from_data_feeds_errors s
   \<and> filter is_no_data (log (wait_till_ready t s)) = filter is_no_data (log s)
   \<and> (\<not> show_wait_till_ready_errors s \<longrightarrow>
         \<not> show_wait_till_ready_errors (wait_till_ready t s)
         \<and> log (wait_till_ready t s) = log s)"
  using wait_feeds_frame [of "data_feeds s" t s] wait_feeds_quiet [of s "data_feeds s" t]
  by (auto simp: wait_till_ready_def)

lemma request_cycle_frame:
  "global_config (request_cycle t s) = global_config s
   \<and> conversion_required (request_cycle t s) = conversion_required s
   \<and> (\<not> show_update_exchange_rates_from_data_feeds_errors s \<longrightarrow>
        \<not> show_update_exchange_rates_from_data_feeds_errors (request_cycle t s)
        \<and> filter is_no_data (log (request_cycle t s)) = filter is_no_data (log s))
   \<and> (\<not> show_wait_till_ready_errors s \<longrightarrow>
        \<not> show_wait_till_ready_errors (request_cycle t s)
        \<and> filter is_not_ready (log (request_cycle t s)) = filter is_not_ready (log s))"
proof -
  let ?w = "wait_till_ready t s"
  obtain e s' where u: "update_exchange_rates_from_data_feeds ?w = (e, s')"
    by (cases "update_exchange_rates_from_data_feeds ?w") auto
  from update_frame [of ?w] u wait_till_ready_frame [of t s]
  show ?thesis
    by (cases e) (auto simp: request_cycle_def)
qed

text \<open>What one step of a run keeps.\<close>

lemma step_config_superset: "config_superset s \<Longrightarrow> config_superset (step x s)"
proof (cases x)
  case GetInstance
  then show "config_superset s \<Longrightarrow> ?thesis"
    using init_config_superset [of s]
    by (auto simp: get_instance_def config_superset_def)
next
  case InitConfig
  then show "config_superset s \<Longrightarrow> ?thesis" by (simp add: init_config_superset)
next
  case (SetGlobalExchangeRateConfig c)
  then show "config_superset s \<Longrightarrow> ?thesis"
    using init_config_superset [of "s\<lparr>exchange_rate_config_override := Some c\<rparr>"]
    by (simp add: set_global_exchange_rate_config_def config_superset_def)
next
  case (SetDataFeeds fs)
  then show "config_superset s \<Longrightarrow> ?thesis"
    using init_config_superset [of "s\<lparr>data_feeds_override := Some fs\<rparr>"]
    by (simp add: set_data_feeds_def config_superset_def)
next
  case (GetExchangeRate src)
  then show "config_superset s \<Longrightarrow> ?thesis"
    by (simp add: config_superset_def get_exchange_rate_frame)
next
  case (AdjustTokenRate a p src)
  then show "config_superset s \<Longrightarrow> ?thesis"
    by (simp add: config_superset_def adjust_token_rate_snd get_exchange_rate_frame
          start_def stop_def)
next
  case (ConvertTokenValue a f t src)
  then show "config_superset s \<Longrightarrow> ?thesis"
    by (simp add: config_superset_def convert_token_value_snd get_exchange_rate_frame
          start_def stop_def)
next
  case UpdateExchangeRates
  then show "config_superset s \<Longrightarrow> ?thesis"
    by (simp add: config_superset_def update_frame)
next
  case (WaitTillReady t)
  then show "config_superset s \<Longrightarrow> ?thesis"
    by (simp add: config_superset_def wait_till_ready_frame)
next
  case (RequestCycle t)
  then show "config_superset s \<Longrightarrow> ?thesis"
    by (simp add: config_superset_def request_cycle_frame)
qed (simp_all add: config_superset_def set_update_interval_def start_def stop_def)

lemma run_config_superset: "config_superset s \<Longrightarrow> config_superset (run xs s)"
  by (induction xs arbitrary: s) (simp_all add: step_config_superset)

section \<open>The configuration invariant\<close>

lemma class_state_superset: "config_superset (class_state f c b)"
  by (simp add: config_superset_def class_state_def)

lemma init_config_log:
  "log (init_config s) = log s \<Longrightarrow>
   \<exists>cr gc r. read_config s = Inr (cr, gc) \<and> default_rates (dict_merge gc cr) [] = Inr r
     \<and> conversion_required (init_config s) = cr
     \<and> global_config (init_config s) = dict_merge gc cr
     \<and> exchange_rate (init_config s) = r"
  by (auto simp: init_config_cases Let_def split: sum.splits prod.splits)

lemma merge_superset:
  assumes "keys_normal cr"
  shows "list_all (\<lambda>k. map_of (dict_merge gc cr) k = map_of cr k) (map fst cr)"
proof -
  from assms have d: "distinct (map fst cr)" by (simp add: keys_normal_def)
  have "map_of (dict_merge gc cr) k = map_of cr k" if "k \<in> fst ` set cr" for k
  proof -
    from that obtain v where "map_of cr k = Some v"
      by (metis map_of_eq_None_iff option.exhaust)
    then show ?thesis by (simp add: dict_merge_lookup [OF d])
  qed
  then show ?thesis by (simp add: list_all_iff)
qed

text \<open>
  C5.  In every state that a run of the class reaches from the class as loaded,
  \<open>global_config\<close> has every key of \<open>conversion_required\<close> and maps it to the very entry
  of \<open>conversion_required\<close>; and a configuration resolution that raises nothing
  establishes this from any state, the entry of the conversion list winning over an
  entry of the fetch list for the same asset.
\<close>

theorem global_config_superset:
  "config_superset (run xs (class_state fetcher conversion feeds))
   \<and> (log (init_config s) = log s \<longrightarrow> config_superset (init_config s))"
proof
  show "config_superset (run xs (class_state fetcher conversion feeds))"
    by (rule run_config_superset [OF class_state_superset])
  show "log (init_config s) = log s \<longrightarrow> config_superset (init_config s)"
  proof
    assume "log (init_config s) = log s"
    from init_config_log [OF this] obtain cr gc where
      "read_config s = Inr (cr, gc)" "conversion_required (init_config s) = cr"
      "global_config (init_config s) = dict_merge gc cr" by blast
    with merge_superset [of cr gc] read_config_normal [of s cr gc]
    show "config_superset (init_config s)" by (simp add: config_superset_def)
  qed
qed

lemma overlap_eval:
  "conversion_required overlap
     = [(''USDT'', [(''default'', PFloat (Num 1)), (''source'', PStr ''feedX'')])]
   \<and> global_config overlap
     = [(''USDT'', [(''default'', PFloat (Num 1)), (''source'', PStr ''feedX'')])]"
  by (simp add: overlap_def config_defs case_defs)

theorem global_config_superset_witness:
  "overlap = run [GetInstance] (class_state (Some [[PStr ''USDT'', PStr ''feedY'']])
                             (Some [[PStr ''USDT'', PFloat (Num 1), PStr ''feedX'']]) [])
   \<and> has_key (conversion_required overlap) ''USDT''
   \<and> map_of (global_config overlap) ''USDT'' = map_of (conversion_required overlap) ''USDT''
   \<and> map_of (global_config overlap) ''USDT''
       = Some [(''default'', PFloat (Num 1)), (''source'', PStr ''feedX'')]
   \<and> log (init_config numeric_lists) = log numeric_lists
   \<and> config_superset (init_config numeric_lists)"
proof -
  have r: "overlap = run [GetInstance] (class_state (Some [[PStr ''USDT'', PStr ''feedY'']])
                             (Some [[PStr ''USDT'', PFloat (Num 1), PStr ''feedX'']]) [])"
    by (simp add: overlap_def)
  have k: "map fst (conversion_required overlap) = [''USDT'']"
    and v: "map_of (conversion_required overlap) ''USDT''
       = Some [(''default'', PFloat (Num 1)), (''source'', PStr ''feedX'')]"
    by (simp_all add: overlap_eval)
  have l: "log (init_config numeric_lists) = log numeric_lists"
    by (simp add: numeric_lists_def config_defs case_defs)
  note g = global_config_superset [of "[GetInstance]" "Some [[PStr ''USDT'', PStr ''feedY'']]"
        "Some [[PStr ''USDT'', PFloat (Num 1), PStr ''feedX'']]" "[]" numeric_lists]
  from g have "config_superset overlap" by (simp add: r)
  then have "map_of (global_config overlap) ''USDT'' = map_of (conversion_required overlap) ''USDT''"
    by (simp add: config_superset_def k)
  with r v l g show ?thesis by (simp add: has_key_def)
qed

section \<open>Merged rates after initialisation\<close>

lemma update_values:
  "list_all (\<lambda>p. P (snd p)) al \<Longrightarrow> P v \<Longrightarrow> list_all (\<lambda>p. P (snd p)) (AList.update k v al)"
  by (induction al) auto

lemma fetcher_items_nan:
  "fetcher_items es acc = Inr gc \<Longrightarrow> list_all (\<lambda>p. nan_default (snd p)) acc \<Longrightarrow>
   list_all (\<lambda>p. nan_default (snd p)) gc"
proof (induction es acc rule: fetcher_items.induct)
  case (2 e0 e1 uu es acc)
  have "nan_default [(''default'', PFloat NaN), (''source'', e1)]"
    by (simp add: nan_default_def)
  with "2.prems"(2)
  have "list_all (\<lambda>p. nan_default (snd p))
          (AList.update e0 [(''default'', PFloat NaN), (''source'', e1)] acc)"
    by (rule update_values)
  with "2.IH" "2.prems"(1) show ?case by simp
qed simp_all

lemma upper_keys_values:
  "upper_keys kvs acc = Inr d \<Longrightarrow> list_all (\<lambda>p. P (snd p)) kvs \<Longrightarrow>
   list_all (\<lambda>p. P (snd p)) acc \<Longrightarrow> list_all (\<lambda>p. P (snd p)) d"
  by (induction kvs acc rule: upper_keys.induct) (auto simp: update_values)

lemma read_config_fetch_only:
  "read_config s = Inr (cr, gc) \<Longrightarrow> exchange_rate_config_override s = None \<Longrightarrow>
   list_all (\<lambda>p. nan_default (snd p)) gc"
  by (auto simp: read_config_def Let_def split: sum.splits prod.splits
        dest!: fetcher_items_nan intro: upper_keys_values)

text \<open>
  C6, as stated, fails in its example: the default \<^verbatim>\<open>"1.0"\<close> of the conversion list is a
  string, \<^verbatim>\<open>init_config\<close> stores defaults as they are, and the merged rate of \<^verbatim>\<open>USDT\<close>
  is that string, not the number 1.0.
\<close>

theorem string_default_stays_string:
  "map_of (exchange_rate scenario_A) ''USDT'' = Some (PStr ''1.0'')
   \<and> exchange_rate scenario_A \<noteq> [(''BTC'', PFloat NaN), (''USDT'', PFloat (Num 1))]"
  by (simp add: scenario_A_eval)

text \<open>
  C6, amended: after an \<^verbatim>\<open>init_config\<close> that raised nothing, the merged rate of every
  asset in \<open>conversion_required\<close> is its configured default exactly as configured (no
  conversion to a number); without an override, the merged rate of every asset that is
  in \<open>global_config\<close> only is \<^verbatim>\<open>nan\<close>; and the merged rates have the keys of
  \<open>global_config\<close> and no others.  With the fetch list \<^verbatim>\<open>[("BTC","feedX")]\<close> and the
  conversion list \<^verbatim>\<open>[("USDT",1.0,"feedX")]\<close> they are \<^verbatim>\<open>{BTC: nan, USDT: 1.0}\<close>.
\<close>

theorem merged_rates_after_init:
  assumes "log (init_config s) = log s"
  shows "(map_of (conversion_required (init_config s)) a = Some e
            \<longrightarrow> (\<exists>d. map_of e ''default'' = Some d
                      \<and> map_of (exchange_rate (init_config s)) a = Some d))
       \<and> (exchange_rate_config_override s = None
          \<and> has_key (global_config (init_config s)) a
          \<and> \<not> has_key (conversion_required (init_config s)) a
            \<longrightarrow> map_of (exchange_rate (init_config s)) a = Some (PFloat NaN))
       \<and> fst ` set (exchange_rate (init_config s)) = fst ` set (global_config (init_config s))"
proof -
  from init_config_log [OF assms] obtain cr gc r where
    rc: "read_config s = Inr (cr, gc)" and dr: "default_rates (dict_merge gc cr) [] = Inr r"
    and c: "conversion_required (init_config s) = cr"
    and g: "global_config (init_config s) = dict_merge gc cr"
    and x: "exchange_rate (init_config s) = r" by blast
  from read_config_normal [OF rc] have dcr: "distinct (map fst cr)" and dgc: "distinct (map fst gc)"
    by (simp_all add: keys_normal_def)
  have dm: "distinct (map fst (dict_merge gc cr))" by (rule dict_merge_distinct [OF dgc])
  note look = default_rates_lookup [OF dr dm]
  have 1: "\<exists>d. map_of e ''default'' = Some d \<and> map_of r a = Some d"
    if "map_of cr a = Some e"
  proof -
    from that have m: "map_of (dict_merge gc cr) a = Some e"
      by (simp add: dict_merge_lookup [OF dcr])
    then have "(a, e) \<in> set (dict_merge gc cr)" by (rule map_of_SomeD)
    have "\<exists>d. map_of e ''default'' = Some d"
    proof (rule ccontr)
      assume "\<not> (\<exists>d. map_of e ''default'' = Some d)"
      then have n: "map_of e ''default'' = None" by simp
      have "\<And>acc. default_rates d acc \<noteq> Inr r" if "(a, e) \<in> set d" for d r
        using that by (induction d) (auto simp: getitem_def n split: option.splits sum.splits)
      with \<open>(a, e) \<in> set (dict_merge gc cr)\<close> dr show False by blast
    qed
    then show ?thesis using look [of a] m by auto
  qed
  have 2: "map_of r a = Some (PFloat NaN)"
    if o: "exchange_rate_config_override s = None" and hg: "has_key (dict_merge gc cr) a"
      and nc: "\<not> has_key cr a"
  proof -
    from nc have "map_of cr a = None" by (simp add: has_key_def)
    then have m: "map_of (dict_merge gc cr) a = map_of gc a"
      by (simp add: dict_merge_lookup [OF dcr])
    with hg obtain e where e: "map_of gc a = Some e" by (auto simp: has_key_def)
    then have "(a, e) \<in> set gc" by (rule map_of_SomeD)
    with read_config_fetch_only [OF rc o] have "nan_default e"
      by (auto simp: list_all_iff)
    with look [of a] m e show ?thesis by (simp add: nan_default_def)
  qed
  have 3: "fst ` set r = fst ` set (dict_merge gc cr)"
    using default_rates_keys [OF dr] by simp
  from 1 2 3 show ?thesis by (simp add: c g x)
qed

lemma numeric_lists_eval:
  "log (init_config numeric_lists) = log numeric_lists
   \<and> exchange_rate_config_override numeric_lists = None
   \<and> conversion_required (init_config numeric_lists)
       = [(''USDT'', [(''default'', PFloat (Num 1)), (''source'', PStr ''feedX'')])]
   \<and> global_config (init_config numeric_lists)
       = [(''BTC'', [(''default'', PFloat NaN), (''source'', PStr ''feedX'')]),
          (''USDT'', [(''default'', PFloat (Num 1)), (''source'', PStr ''feedX'')])]"
  by (simp add: numeric_lists_def config_defs case_defs)

theorem merged_rates_after_init_witness:
  "log (init_config numeric_lists) = log numeric_lists
   \<and> map_of (exchange_rate (init_config numeric_lists)) ''USDT'' = Some (PFloat (Num 1))
   \<and> map_of (exchange_rate (init_config numeric_lists)) ''BTC'' = Some (PFloat NaN)
   \<and> fst ` set (exchange_rate (init_config numeric_lists)) = {''BTC'', ''USDT''}"
proof -
  have l: "log (init_config numeric_lists) = log numeric_lists"
    by (simp add: numeric_lists_eval)
  have h: "map_of (conversion_required (init_config numeric_lists)) ''USDT''
             = Some [(''default'', PFloat (Num 1)), (''source'', PStr ''feedX'')]
     \<and> exchange_rate_config_override numeric_lists = None
     \<and> has_key (global_config (init_config numeric_lists)) ''BTC''
     \<and> \<not> has_key (conversion_required (init_config numeric_lists)) ''BTC''
     \<and> fst ` set (global_config (init_config numeric_lists)) = {''BTC'', ''USDT''}"
    by (simp add: numeric_lists_eval has_key_def)
  from l h
    merged_rates_after_init [OF l, of "''USDT''" "[(''default'', PFloat (Num 1)), (''source'', PStr ''feedX'')]"]
    merged_rates_after_init [OF l, of "''BTC''"]
  show ?thesis by auto
qed

section \<open>Malformed configuration\<close>

lemma conversion_items_Inr:
  "conversion_items es acc = Inr d \<Longrightarrow>
   list_all (\<lambda>e. 3 \<le> length e) es \<and> fst ` set d = fst ` set acc \<union> hd ` set es"
  by (induction es acc rule: conversion_items.induct) (auto simp: dom_update)

lemma fetcher_items_Inr:
  "fetcher_items es acc = Inr d \<Longrightarrow>
   list_all (\<lambda>e. 2 \<le> length e) es \<and> fst ` set d = fst ` set acc \<union> hd ` set es"
  by (induction es acc rule: fetcher_items.induct) (auto simp: dom_update)

lemma upper_keys_Inr:
  "upper_keys kvs acc = Inr d \<Longrightarrow> list_all (\<lambda>p. is_str (fst p)) kvs"
  by (induction kvs acc rule: upper_keys.induct) auto

lemma read_config_well_formed:
  assumes "read_config s = Inr p"
  shows "\<not> malformed s"
proof (cases "exchange_rate_config_override s")
  case None
  let ?conv = "case exchange_rate_conversion s of None \<Rightarrow> [] | Some l \<Rightarrow> l"
  let ?fetch = "case exchange_rate_fetcher s of None \<Rightarrow> [] | Some l \<Rightarrow> l"
  from assms None obtain cr gc cr' gc' where
    c: "conversion_items ?conv [] = Inr cr" and f: "fetcher_items ?fetch [] = Inr gc"
    and ug: "upper_keys gc [] = Inr gc'" and uc: "upper_keys cr [] = Inr cr'"
    by (auto simp: read_config_def Let_def split: sum.splits prod.splits)
  from conversion_items_Inr [OF c] upper_keys_Inr [OF uc]
  have 1: "\<not> list_ex (\<lambda>e. length e < 3 \<or> \<not> is_str (hd e)) ?conv"
    by (fastforce simp: list_all_iff list_ex_iff)
  from fetcher_items_Inr [OF f] upper_keys_Inr [OF ug]
  have 2: "\<not> list_ex (\<lambda>e. length e < 2 \<or> \<not> is_str (hd e)) ?fetch"
    by (fastforce simp: list_all_iff list_ex_iff)
  from 1 2 None show ?thesis by (simp add: malformed_def)
next
  case (Some ov)
  from assms Some obtain cr' gc' where
    ug: "upper_keys (dict_get ov ''global_config'' []) [] = Inr gc'"
    and uc: "upper_keys (dict_get ov ''conversion_required'' []) [] = Inr cr'"
    by (auto simp: read_config_def Let_def split: sum.splits prod.splits)
  from upper_keys_Inr [OF ug] upper_keys_Inr [OF uc] Some show ?thesis
    by (auto simp: malformed_def list_all_iff list_ex_iff)
qed

text \<open>
  C9, as stated, fails: a default that is not a number is not an error for
  \<^verbatim>\<open>init_config\<close>.  Resolving scenario B again with the conversion list
  \<^verbatim>\<open>[("USDT","abc","feedX")]\<close> logs nothing and replaces both the configuration and the
  merged rates; the rates that the refresh had stored are gone.
\<close>

theorem non_numeric_default_accepted:
  "log garbled = log scenario_B
   \<and> exchange_rate scenario_B = [(''BTC'', PFloat (Num 50000)), (''USDT'', PFloat (Num 1))]
   \<and> exchange_rate garbled = [(''BTC'', PFloat NaN), (''USDT'', PStr ''abc'')]
   \<and> map_of (conversion_required garbled) ''USDT''
       = Some [(''default'', PStr ''abc''), (''source'', PStr ''feedX'')]"
  by (simp add: garbled_def scenario_B_eval scenario_A_eval config_defs case_defs)

text \<open>
  C9, amended: when the input is such that building the two mappings raises (an entry of
  the conversion list with fewer than three elements, an entry of the fetch list with
  fewer than two, an asset name that is not a string, in the lists or in an override),
  \<^verbatim>\<open>init_config\<close> catches the error, logs it, and leaves \<open>conversion_required\<close>,
  \<open>global_config\<close> and the merged rates as they were.  Being a function from states to
  states, \<^verbatim>\<open>init_config\<close> hands no error to its caller on any input.
\<close>

theorem malformed_config_retained:
  assumes "malformed s"
  shows "conversion_required (init_config s) = conversion_required s
       \<and> global_config (init_config s) = global_config s
       \<and> exchange_rate (init_config s) = exchange_rate s
       \<and> log (init_config s) = log s @ [ConfigError]"
proof -
  from assms read_config_well_formed [of s] obtain e where "read_config s = Inl e"
    by (cases "read_config s") auto
  then show ?thesis by (simp add: init_config_cases)
qed

theorem malformed_config_retained_witness:
  "malformed short_entry
   \<and> conversion_required (init_config short_entry) = conversion_required scenario_B
   \<and> global_config (init_config short_entry) = global_config scenario_B
   \<and> exchange_rate (init_config short_entry)
       = [(''BTC'', PFloat (Num 50000)), (''USDT'', PFloat (Num 1))]
   \<and> log (init_config short_entry) = [ConfigError]"
proof -
  have m: "malformed short_entry"
    by (simp add: short_entry_def malformed_def scenario_B_eval scenario_A_eval)
  have f: "conversion_required short_entry = conversion_required scenario_B
     \<and> global_config short_entry = global_config scenario_B
     \<and> exchange_rate short_entry = [(''BTC'', PFloat (Num 50000)), (''USDT'', PFloat (Num 1))]
     \<and> log short_entry = []"
    by (simp add: short_entry_def scenario_B_eval scenario_A_eval)
  from m f malformed_config_retained [OF m] show ?thesis by simp
qed

section \<open>The effect of a refresh\<close>

lemma keys_normal_Cons:
  "keys_normal ((k, v) # d) \<Longrightarrow> upper k = k \<and> map_of d k = None \<and> keys_normal d"
  by (auto simp: keys_normal_def map_of_eq_None_iff)

lemma update_assets_rates:
  "update_assets df gc s h = (None, s', h') \<Longrightarrow> keys_normal gc \<Longrightarrow>
   map_of (exchange_rate s') k =
     (case map_of gc k of
        Some config \<Rightarrow>
          if names_feed config df \<and> truthy (get_price df k) then Some (get_price df k)
          else map_of (exchange_rate s) k
      | None \<Rightarrow> map_of (exchange_rate s) k)"
proof (induction gc arbitrary: s h)
  case Nil
  then show ?case by simp
next
  case (Cons p gc)
  obtain k0 c0 where p: "p = (k0, c0)" by (cases p)
  from Cons.prems(2) have kc: "keys_normal ((k0, c0) # gc)" by (simp add: p)
  from keys_normal_Cons [OF kc] have u: "upper k0 = k0" and n: "map_of gc k0 = None"
    and kn: "keys_normal gc" by simp_all
  note st = update_assets_step [OF Cons.prems(1) [unfolded p]]
  note ih = Cons.IH [OF st kn, unfolded u]
  have er: "map_of (exchange_rate (if names_feed c0 df then
              if truthy (get_price df k0)
              then s\<lparr>exchange_rate := AList.update k0 (get_price df k0) (exchange_rate s)\<rparr>
              else if show_update_exchange_rates_from_data_feeds_errors s
                   then s\<lparr>log := log s @ [NoDataFound k0 (name df)]\<rparr>
                   else s
            else s)) k =
         (if k = k0 \<and> names_feed c0 df \<and> truthy (get_price df k0)
          then Some (get_price df k0) else map_of (exchange_rate s) k)"
    by (simp add: update_conv')
  show ?case
  proof (cases "k = k0")
    case True
    with ih [unfolded er] n show ?thesis by (simp add: p)
  next
    case False
    with ih [unfolded er] show ?thesis by (simp add: p)
  qed
qed

lemma misses_of_Cons:
  "misses_of df ((k, config) # gc) =
     (if names_feed config df \<and> \<not> truthy (get_price df (upper k))
      then [NoDataFound (upper k) (name df)] else []) @ misses_of df gc"
  by (simp add: misses_of_def)

lemma update_assets_log:
  "update_assets df gc s h = (None, s', h') \<Longrightarrow>
   log s' = log s @ (if show_update_exchange_rates_from_data_feeds_errors s
                     then misses_of df gc else [])
   \<and> h' = (h \<or> misses_of df gc \<noteq> [])"
proof (induction gc arbitrary: s h)
  case Nil
  then show ?case by (simp add: misses_of_def)
next
  case (Cons p gc)
  obtain k0 c0 where p: "p = (k0, c0)" by (cases p)
  note st = update_assets_step [OF Cons.prems(1) [unfolded p]]
  note ih = Cons.IH [OF st]
  have f1: "show_update_exchange_rates_from_data_feeds_errors (if names_feed c0 df then
              if truthy (get_price df (upper k0))
              then s\<lparr>exchange_rate :=
                       AList.update (upper k0) (get_price df (upper k0)) (exchange_rate s)\<rparr>
              else if show_update_exchange_rates_from_data_feeds_errors s
                   then s\<lparr>log := log s @ [NoDataFound (upper k0) (name df)]\<rparr>
                   else s
            else s) = show_update_exchange_rates_from_data_feeds_errors s"
    by simp
  have f2: "log (if names_feed c0 df then
              if truthy (get_price df (upper k0))
              then s\<lparr>exchange_rate :=
                       AList.update (upper k0) (get_price df (upper k0)) (exchange_rate s)\<rparr>
              else if show_update_exchange_rates_from_data_feeds_errors s
                   then s\<lparr>log := log s @ [NoDataFound (upper k0) (name df)]\<rparr>
                   else s
            else s) =
          log s @ (if show_update_exchange_rates_from_data_feeds_errors s
                      \<and> names_feed c0 df \<and> \<not> truthy (get_price df (upper k0))
                   then [NoDataFound (upper k0) (name df)] else [])"
    by simp
  from ih [unfolded f1 f2] show ?case
    by (auto simp: p misses_of_Cons)
qed

lemma priced_by_Cons:
  "priced_by (df # dfs) config k =
     (if names_feed config df \<and> truthy (get_price df k) then [df] else [])
     @ priced_by dfs config k"
  by (simp add: priced_by_def)

lemma update_feeds_rates:
  "update_feeds dfs s h = (None, s', h') \<Longrightarrow> keys_normal (global_config s) \<Longrightarrow>
   map_of (global_config s) k = Some config \<Longrightarrow>
   map_of (exchange_rate s') k =
     (if priced_by dfs config k = [] then map_of (exchange_rate s) k
      else Some (get_price (last (priced_by dfs config k)) k))"
proof (induction dfs arbitrary: s h)
  case Nil
  then show ?case by (simp add: priced_by_def)
next
  case (Cons df dfs)
  obtain e1 s1 h1 where a: "update_assets df (global_config s) s h = (e1, s1, h1)"
    by (cases "update_assets df (global_config s) s h") auto
  with Cons.prems(1) have e1: "e1 = None" and r: "update_feeds dfs s1 h1 = (None, s', h')"
    by (cases e1; simp)+
  from update_assets_frame [OF a] have g: "global_config s1 = global_config s" by simp
  note ih = Cons.IH [OF r, unfolded g, OF Cons.prems(2,3)]
  note ra = update_assets_rates [OF a [unfolded e1] Cons.prems(2), of k]
  show ?case
    using ih ra by (simp add: priced_by_Cons Cons.prems(3))
qed

lemma update_feeds_log:
  "update_feeds dfs s h = (None, s', h') \<Longrightarrow>
   log s' = log s @ (if show_update_exchange_rates_from_data_feeds_errors s
                     then concat (map (\<lambda>df. misses_of df (global_config s)) dfs) else [])
   \<and> h' = (h \<or> concat (map (\<lambda>df. misses_of df (global_config s)) dfs) \<noteq> [])"
proof (induction dfs arbitrary: s h)
  case Nil
  then show ?case by simp
next
  case (Cons df dfs)
  obtain e1 s1 h1 where a: "update_assets df (global_config s) s h = (e1, s1, h1)"
    by (cases "update_assets df (global_config s) s h") auto
  with Cons.prems(1) have e1: "e1 = None" and r: "update_feeds dfs s1 h1 = (None, s', h')"
    by (cases e1; simp)+
  from update_assets_frame [OF a] have g: "global_config s1 = global_config s"
    and f: "show_update_exchange_rates_from_data_feeds_errors s1
       = show_update_exchange_rates_from_data_feeds_errors s" by simp_all
  note ih = Cons.IH [OF r, unfolded g f]
  note la = update_assets_log [OF a [unfolded e1]]
  show ?case
    using ih la by simp
qed

lemma step_keys_normal:
  "keys_normal (global_config s) \<Longrightarrow> keys_normal (global_config (step x s))"
proof (cases x)
  case GetInstance
  then show "keys_normal (global_config s) \<Longrightarrow> ?thesis"
    using init_config_keys_normal [of s] by (simp add: get_instance_def)
next
  case InitConfig
  then show "keys_normal (global_config s) \<Longrightarrow> ?thesis"
    by (simp add: init_config_keys_normal)
next
  case (SetGlobalExchangeRateConfig c)
  then show "keys_normal (global_config s) \<Longrightarrow> ?thesis"
    using init_config_keys_normal [of "s\<lparr>exchange_rate_config_override := Some c\<rparr>"]
    by (simp add: set_global_exchange_rate_config_def)
next
  case (SetDataFeeds fs)
  then show "keys_normal (global_config s) \<Longrightarrow> ?thesis"
    using init_config_keys_normal [of "s\<lparr>data_feeds_override := Some fs\<rparr>"]
    by (simp add: set_data_feeds_def)
next
  case (GetExchangeRate src)
  then show "keys_normal (global_config s) \<Longrightarrow> ?thesis"
    by (simp add: get_exchange_rate_frame)
next
  case (AdjustTokenRate a p src)
  then show "keys_normal (global_config s) \<Longrightarrow> ?thesis"
    by (simp add: adjust_token_rate_snd get_exchange_rate_frame start_def stop_def)
next
  case (ConvertTokenValue a f t src)
  then show "keys_normal (global_config s) \<Longrightarrow> ?thesis"
    by (simp add: convert_token_value_snd get_exchange_rate_frame start_def stop_def)
next
  case UpdateExchangeRates
  then show "keys_normal (global_config s) \<Longrightarrow> ?thesis"
    by (simp add: update_frame)
next
  case (WaitTillReady t)
  then show "keys_normal (global_config s) \<Longrightarrow> ?thesis"
    by (simp add: wait_till_ready_frame)
next
  case (RequestCycle t)
  then show "keys_normal (global_config s) \<Longrightarrow> ?thesis"
    by (simp add: request_cycle_frame)
qed (simp_all add: set_update_interval_def start_def stop_def)

lemma run_keys_normal:
  "keys_normal (global_config s) \<Longrightarrow> keys_normal (global_config (run xs s))"
  by (induction xs arbitrary: s) (simp_all add: step_keys_normal)

lemma reachable_keys_normal:
  "keys_normal (global_config (run xs (class_state fetcher conversion feeds)))"
  by (rule run_keys_normal) (simp add: class_state_def keys_normal_def)

text \<open>A refresh that does not raise, in terms of its two loops.\<close>

lemma update_None:
  assumes "update_exchange_rates_from_data_feeds s = (None, s')"
  obtains s1 h where
    "update_feeds (data_feeds s) (store_snapshots (data_feeds s) s) False = (None, s1, h)"
    "s' = (if h then s1\<lparr>show_update_exchange_rates_from_data_feeds_errors := False\<rparr> else s1)"
proof -
  obtain e s1 h where u: "update_feeds (data_feeds s) (store_snapshots (data_feeds s) s) False
      = (e, s1, h)"
    by (cases "update_feeds (data_feeds s) (store_snapshots (data_feeds s) s) False") auto
  with assms have "e = None"
    by (cases e) (simp_all add: update_exchange_rates_from_data_feeds_def)
  with u assms that show thesis
    by (simp add: update_exchange_rates_from_data_feeds_def)
qed

lemma refresh_rates:
  assumes u: "update_exchange_rates_from_data_feeds s = (None, s')"
      and kn: "keys_normal (global_config s)"
      and m: "map_of (global_config s) asset = Some config"
  shows "map_of (exchange_rate s') asset =
           (if priced_by (data_feeds s) config asset = [] then map_of (exchange_rate s) asset
            else Some (get_price (last (priced_by (data_feeds s) config asset)) asset))"
proof -
  let ?s0 = "store_snapshots (data_feeds s) s"
  note f0 = store_snapshots_frame [of "data_feeds s" s]
  from u obtain s1 h where uf: "update_feeds (data_feeds s) ?s0 False = (None, s1, h)"
    and s': "s' = (if h then s1\<lparr>show_update_exchange_rates_from_data_feeds_errors := False\<rparr>
                   else s1)"
    by (rule update_None)
  from kn m f0 have kn0: "keys_normal (global_config ?s0)"
    and m0: "map_of (global_config ?s0) asset = Some config" by simp_all
  from update_feeds_rates [OF uf kn0 m0] f0 show ?thesis
    by (simp add: s')
qed

lemma refresh_log:
  assumes u: "update_exchange_rates_from_data_feeds s = (None, s')"
  shows "log s' = log s @ (if show_update_exchange_rates_from_data_feeds_errors s
                          then misses s else [])
       \<and> show_update_exchange_rates_from_data_feeds_errors s'
           = (show_update_exchange_rates_from_data_feeds_errors s \<and> misses s = [])"
proof -
  let ?s0 = "store_snapshots (data_feeds s) s"
  note f0 = store_snapshots_frame [of "data_feeds s" s]
  from u obtain s1 h where uf: "update_feeds (data_feeds s) ?s0 False = (None, s1, h)"
    and s': "s' = (if h then s1\<lparr>show_update_exchange_rates_from_data_feeds_errors := False\<rparr>
                   else s1)"
    by (rule update_None)
  from update_feeds_frame [OF uf] f0
  have sh: "show_update_exchange_rates_from_data_feeds_errors s1
      = show_update_exchange_rates_from_data_feeds_errors s" by simp
  from update_feeds_log [OF uf] f0
  have l: "log s1 = log s @ (if show_update_exchange_rates_from_data_feeds_errors s
                             then misses s else [])"
    and h: "h = (misses s \<noteq> [])"
    by (simp_all add: misses_def)
  from l h sh show ?thesis by (simp add: s')
qed

lemma miss_in_misses:
  assumes "(asset, config) \<in> set (global_config s)" and "upper asset = asset"
      and "df \<in> set (data_feeds s)" and "names_feed config df"
      and "\<not> truthy (get_price df asset)"
  shows "NoDataFound asset (name df) \<in> set (misses s)"
proof -
  from assms(1,2,4,5) have "NoDataFound asset (name df) \<in> set (misses_of df (global_config s))"
    by (force simp: misses_of_def)
  with assms(3) show ?thesis by (auto simp: misses_def)
qed

lemma zero_priced_eval:
  "data_feeds zero_priced = [feed_zero]
   \<and> global_config zero_priced = [(''BTC'', [(''default'', PFloat NaN), (''source'', PStr ''feedX'')])]
   \<and> exchange_rate zero_priced = [(''BTC'', PFloat NaN)]"
  by (simp add: zero_priced_def config_defs case_defs)

text \<open>
  C1, as stated, fails: the refresh tests the truth value of the price
  (\<^verbatim>\<open>if price:\<close>), and the float 0.0 is false.  A price of 0.0 that is present in the
  snapshot of the source feed is not stored; the merged rate keeps its previous value,
  here \<^verbatim>\<open>nan\<close>.
\<close>

theorem zero_price_not_stored:
  "map_of (price_dict feed_zero) ''BTC'' = Some (PFloat (Num 0))
   \<and> names_feed [(''default'', PFloat NaN), (''source'', PStr ''feedX'')] feed_zero
   \<and> fst (update_exchange_rates_from_data_feeds zero_priced) = None
   \<and> map_of (exchange_rate (snd (update_exchange_rates_from_data_feeds zero_priced))) ''BTC''
       = Some (PFloat NaN)"
  by (simp add: zero_priced_def config_defs update_defs case_defs feed_zero_def names_feed_def)

text \<open>
  C1, amended.  Take a refresh that does not raise, in a state reached by a run of the
  class, and an asset of \<open>global_config\<close> with its entry.  Among the feeds whose name
  equals the source of the entry without regard to case, the last one, in the order of
  \<open>data_feeds\<close>, whose \<^verbatim>\<open>get_price\<close> gives a price that counts as true (a number other
  than zero) overwrites the merged rate of the asset with that price; if there is no
  such feed the merged rate keeps its previous value.  Every such feed that gives no
  price, or one that counts as false, is recorded as not found: the flag
  \<^verbatim>\<open>_show_update_exchange_rates_from_data_feeds_errors\<close> is false afterwards, and the
  message is in the log if the flag was still true.
\<close>

theorem refresh_merges_priced_assets:
  assumes "s = run xs (class_state fetcher conversion feeds)"
      and "update_exchange_rates_from_data_feeds s = (None, s')"
      and "map_of (global_config s) asset = Some config"
  shows "map_of (exchange_rate s') asset =
           (if priced_by (data_feeds s) config asset = [] then map_of (exchange_rate s) asset
            else Some (get_price (last (priced_by (data_feeds s) config asset)) asset))
       \<and> (\<forall>df \<in> set (data_feeds s).
             names_feed config df \<and> \<not> truthy (get_price df asset) \<longrightarrow>
               \<not> show_update_exchange_rates_from_data_feeds_errors s'
               \<and> (show_update_exchange_rates_from_data_feeds_errors s
                    \<longrightarrow> NoDataFound asset (name df) \<in> set (log s')))"
proof -
  from assms(1) have kn: "keys_normal (global_config s)"
    by (simp add: reachable_keys_normal)
  from assms(3) have mem: "(asset, config) \<in> set (global_config s)"
    by (rule map_of_SomeD)
  with kn have up: "upper asset = asset"
    by (auto simp: keys_normal_def list_all_iff)
  note l = refresh_log [OF assms(2)]
  have "\<not> show_update_exchange_rates_from_data_feeds_errors s'
        \<and> (show_update_exchange_rates_from_data_feeds_errors s
              \<longrightarrow> NoDataFound asset (name df) \<in> set (log s'))"
    if "df \<in> set (data_feeds s)" "names_feed config df" "\<not> truthy (get_price df asset)" for df
  proof -
    from miss_in_misses [OF mem up that]
    have "NoDataFound asset (name df) \<in> set (misses s)" .
    with l show ?thesis by auto
  qed
  with refresh_rates [OF assms(2) kn assms(3)] show ?thesis by blast
qed

lemma two_missing_eval:
  "data_feeds two_missing = [feedX]
   \<and> global_config two_missing =
       [(''BTC'', [(''default'', PFloat NaN), (''source'', PStr ''FEEDX'')]),
        (''DOGE'', [(''default'', PFloat NaN), (''source'', PStr ''feedx'')]),
        (''ETH'', [(''default'', PFloat NaN), (''source'', PStr ''feedX'')])]
   \<and> exchange_rate two_missing
       = [(''BTC'', PFloat NaN), (''DOGE'', PFloat NaN), (''ETH'', PFloat NaN)]
   \<and> show_update_exchange_rates_from_data_feeds_errors two_missing
   \<and> show_wait_till_ready_errors two_missing
   \<and> log two_missing = []"
  by (simp add: two_missing_def config_defs case_defs)

lemma two_missing_update:
  "fst (update_exchange_rates_from_data_feeds two_missing) = None
   \<and> log (snd (update_exchange_rates_from_data_feeds two_missing))
       = [NoDataFound ''DOGE'' ''feedX'', NoDataFound ''ETH'' ''feedX'']"
  by (simp add: two_missing_def config_defs update_defs case_defs feedX_def)

theorem refresh_merges_priced_assets_witness:
  "fst (update_exchange_rates_from_data_feeds two_missing) = None
   \<and> map_of (exchange_rate (snd (update_exchange_rates_from_data_feeds two_missing))) ''BTC''
       = Some (PFloat (Num 50000))
   \<and> map_of (exchange_rate (snd (update_exchange_rates_from_data_feeds two_missing))) ''DOGE''
       = Some (PFloat NaN)
   \<and> \<not> show_update_exchange_rates_from_data_feeds_errors
         (snd (update_exchange_rates_from_data_feeds two_missing))
   \<and> NoDataFound ''DOGE'' ''feedX''
       \<in> set (log (snd (update_exchange_rates_from_data_feeds two_missing)))"
proof -
  let ?s' = "snd (update_exchange_rates_from_data_feeds two_missing)"
  have r: "two_missing = run [SetDataFeeds [feedX]]
       (class_state (Some [[PStr ''BTC'', PStr ''FEEDX''], [PStr ''DOGE'', PStr ''feedx''],
                           [PStr ''ETH'', PStr ''feedX'']]) None [])"
    by (simp add: two_missing_def)
  have n: "fst (update_exchange_rates_from_data_feeds two_missing) = None"
    by (simp add: two_missing_update)
  then have u: "update_exchange_rates_from_data_feeds two_missing = (None, ?s')"
    by (metis prod.collapse)
  have b: "map_of (global_config two_missing) ''BTC''
             = Some [(''default'', PFloat NaN), (''source'', PStr ''FEEDX'')]"
    and d: "map_of (global_config two_missing) ''DOGE''
             = Some [(''default'', PFloat NaN), (''source'', PStr ''feedx'')]"
    by (simp_all add: two_missing_eval)
  have pb: "priced_by (data_feeds two_missing)
              [(''default'', PFloat NaN), (''source'', PStr ''FEEDX'')] ''BTC'' = [feedX]"
    and pd: "priced_by (data_feeds two_missing)
              [(''default'', PFloat NaN), (''source'', PStr ''feedx'')] ''DOGE'' = []"
    and gb: "get_price feedX ''BTC'' = PFloat (Num 50000)"
    and nd: "names_feed [(''default'', PFloat NaN), (''source'', PStr ''feedx'')] feedX
             \<and> \<not> truthy (get_price feedX ''DOGE'')"
    and sh: "show_update_exchange_rates_from_data_feeds_errors two_missing"
    and ex: "map_of (exchange_rate two_missing) ''DOGE'' = Some (PFloat NaN)"
    and nm: "name feedX = ''feedX''"
    by (simp_all add: two_missing_eval priced_by_def names_feed_def get_price_def dict_get_def
          feedX_def case_defs)
  from refresh_merges_priced_assets [OF r u b] pb gb
  have 1: "map_of (exchange_rate ?s') ''BTC'' = Some (PFloat (Num 50000))" by simp
  from refresh_merges_priced_assets [OF r u d] pd ex nd sh nm
  have 2: "map_of (exchange_rate ?s') ''DOGE'' = Some (PFloat NaN)
     \<and> \<not> show_update_exchange_rates_from_data_feeds_errors ?s'
     \<and> NoDataFound ''DOGE'' ''feedX'' \<in> set (log ?s')"
    by (simp add: two_missing_eval)
  from n 1 2 show ?thesis by simp
qed

section \<open>Reports that are made once\<close>

lemma update_assets_bad_head:
  "bad_entry config \<Longrightarrow> \<exists>e. update_assets df ((k, config) # rest) s h = (Some e, s, h)"
  by (auto simp: bad_entry_def getitem_def split: option.splits pyval.splits)

lemma update_assets_good_head:
  assumes "\<not> bad_entry config"
  shows "update_assets df ((k, config) # rest) s h =
         update_assets df rest
           (if names_feed config df then
              if truthy (get_price df (upper k))
              then s\<lparr>exchange_rate :=
                       AList.update (upper k) (get_price df (upper k)) (exchange_rate s)\<rparr>
              else if show_update_exchange_rates_from_data_feeds_errors s
                   then s\<lparr>log := log s @ [NoDataFound (upper k) (name df)]\<rparr>
                   else s
            else s)
           (h \<or> names_feed config df \<and> \<not> truthy (get_price df (upper k)))"
proof -
  from assms obtain src where src: "map_of config ''source'' = Some (PStr src)"
    by (auto simp: bad_entry_def split: option.splits pyval.splits)
  show ?thesis
    by (simp add: getitem_def src names_feed_def Let_def)
qed

lemma update_assets_outcome:
  "update_assets df gc s h = (e, s', h') \<Longrightarrow>
   (e = None) = (\<not> list_ex (\<lambda>(k, config). bad_entry config) gc)
   \<and> log s' = log s @ (if show_update_exchange_rates_from_data_feeds_errors s
                       then misses_of df (takeWhile (\<lambda>(k, config). \<not> bad_entry config) gc)
                       else [])"
proof (induction gc arbitrary: s h)
  case Nil
  then show ?case by (simp add: misses_of_def)
next
  case (Cons p gc)
  obtain k0 c0 where p: "p = (k0, c0)" by (cases p)
  show ?case
  proof (cases "bad_entry c0")
    case True
    from update_assets_bad_head [OF True, of df k0 gc s h] Cons.prems
    have "e \<noteq> None" and "s' = s" by (auto simp: p)
    with True show ?thesis by (simp add: p misses_of_def)
  next
    case False
    let ?s1 = "if names_feed c0 df then
              if truthy (get_price df (upper k0))
              then s\<lparr>exchange_rate :=
                       AList.update (upper k0) (get_price df (upper k0)) (exchange_rate s)\<rparr>
              else if show_update_exchange_rates_from_data_feeds_errors s
                   then s\<lparr>log := log s @ [NoDataFound (upper k0) (name df)]\<rparr>
                   else s
            else s"
    let ?h1 = "h \<or> names_feed c0 df \<and> \<not> truthy (get_price df (upper k0))"
    from Cons.prems have r: "update_assets df gc ?s1 ?h1 = (e, s', h')"
      by (simp only: p update_assets_good_head [OF False])
    note ih = Cons.IH [OF r]
    have f1: "show_update_exchange_rates_from_data_feeds_errors ?s1
              = show_update_exchange_rates_from_data_feeds_errors s" by simp
    have f2: "log ?s1 = log s @ (if show_update_exchange_rates_from_data_feeds_errors s
                      \<and> names_feed c0 df \<and> \<not> truthy (get_price df (upper k0))
                   then [NoDataFound (upper k0) (name df)] else [])" by simp
    from ih [unfolded f1 f2] False show ?thesis
      by (auto simp: p misses_of_Cons)
  qed
qed

lemma update_feeds_no_raise:
  "\<not> list_ex (\<lambda>(k, config). bad_entry config) (global_config s) \<Longrightarrow>
   fst (update_feeds dfs s h) = None"
proof (induction dfs arbitrary: s h)
  case Nil
  then show ?case by simp
next
  case (Cons df dfs)
  obtain e1 s1 h1 where a: "update_assets df (global_config s) s h = (e1, s1, h1)"
    by (cases "update_assets df (global_config s) s h") auto
  from update_assets_outcome [OF a] Cons.prems have e1: "e1 = None" by simp
  from update_assets_frame [OF a] have g: "global_config s1 = global_config s" by simp
  from Cons.IH [of s1 h1] Cons.prems g show ?case by (simp add: a e1)
qed

lemma update_feeds_raise:
  assumes "list_ex (\<lambda>(k, config). bad_entry config) (global_config s)"
      and "update_feeds (df # dfs) s h = (e, s', h')"
  shows "e \<noteq> None
       \<and> log s' = log s @ (if show_update_exchange_rates_from_data_feeds_errors s
                           then misses_of df
                                  (takeWhile (\<lambda>(k, config). \<not> bad_entry config) (global_config s))
                           else [])"
proof -
  obtain e1 s1 h1 where a: "update_assets df (global_config s) s h = (e1, s1, h1)"
    by (cases "update_assets df (global_config s) s h") auto
  from update_assets_outcome [OF a] assms(1) obtain x where e1: "e1 = Some x"
    and l: "log s1 = log s @ (if show_update_exchange_rates_from_data_feeds_errors s
                           then misses_of df
                                  (takeWhile (\<lambda>(k, config). \<not> bad_entry config) (global_config s))
                           else [])"
    by (cases e1) auto
  from assms(2) a e1 have "e = Some x" and "s' = s1" by simp_all
  with l show ?thesis by simp
qed

lemma refresh_outcome:
  assumes sh: "show_update_exchange_rates_from_data_feeds_errors s"
  shows "(fst (update_exchange_rates_from_data_feeds s) = None) = (\<not> refresh_raises s)
       \<and> log (snd (update_exchange_rates_from_data_feeds s))
           = log s @ misses_met s @ (if refresh_raises s then [FeedError] else [])
       \<and> show_update_exchange_rates_from_data_feeds_errors
            (snd (update_exchange_rates_from_data_feeds s))
           = (refresh_raises s \<or> misses s = [])"
proof (cases "refresh_raises s")
  case True
  let ?s0 = "store_snapshots (data_feeds s) s"
  note f0 = store_snapshots_frame [of "data_feeds s" s]
  from True obtain df dfs where d: "data_feeds s = df # dfs"
    by (cases "data_feeds s") (auto simp: refresh_raises_def)
  from True f0 have bad: "list_ex (\<lambda>(k, config). bad_entry config) (global_config ?s0)"
    by (simp add: refresh_raises_def)
  obtain e s1 h where u: "update_feeds (df # dfs) ?s0 False = (e, s1, h)"
    by (cases "update_feeds (df # dfs) ?s0 False") auto
  from update_feeds_raise [OF bad u] f0 sh obtain x where e: "e = Some x"
    and l: "log s1 = log s @ misses_of df
              (takeWhile (\<lambda>(k, config). \<not> bad_entry config) (global_config s))"
    by (cases e) auto
  from update_feeds_frame [OF u] f0
  have f: "show_update_exchange_rates_from_data_feeds_errors s1
      = show_update_exchange_rates_from_data_feeds_errors s" by simp
  have r: "update_exchange_rates_from_data_feeds s = (Some x, s1\<lparr>log := log s1 @ [FeedError]\<rparr>)"
    using u [unfolded d [symmetric]] by (simp add: update_exchange_rates_from_data_feeds_def e)
  from True d have m: "misses_met s = misses_of df
              (takeWhile (\<lambda>(k, config). \<not> bad_entry config) (global_config s))"
    by (simp add: misses_met_def)
  from True sh show ?thesis by (simp add: r l f m)
next
  case False
  let ?s0 = "store_snapshots (data_feeds s) s"
  note f0 = store_snapshots_frame [of "data_feeds s" s]
  have n: "fst (update_feeds (data_feeds s) ?s0 False) = None"
  proof (cases "data_feeds s = []")
    case True
    then show ?thesis by simp
  next
    case ne: False
    with False f0 have "\<not> list_ex (\<lambda>(k, config). bad_entry config) (global_config ?s0)"
      by (simp add: refresh_raises_def)
    then show ?thesis by (rule update_feeds_no_raise)
  qed
  obtain e s' where u: "update_exchange_rates_from_data_feeds s = (e, s')"
    by (cases "update_exchange_rates_from_data_feeds s") auto
  from n u have e: "e = None"
    by (cases "update_feeds (data_feeds s) ?s0 False")
       (auto simp: update_exchange_rates_from_data_feeds_def split: option.splits)
  from refresh_log [OF u [unfolded e]] sh False show ?thesis
    by (simp add: u e misses_met_def)
qed

lemma wait_feeds_first:
  "show_wait_till_ready_errors s \<Longrightarrow>
   (if list_ex id (take (length dfs) t)
    then \<exists>n. wait_feeds dfs t s
               = s\<lparr>log := log s @ [NotReady n], show_wait_till_ready_errors := False\<rparr>
    else wait_feeds dfs t s = s)"
proof (induction dfs arbitrary: t)
  case Nil
  then show ?case by simp
next
  case (Cons df dfs)
  show ?case
  proof (cases t)
    case Nil
    with Cons.IH [OF Cons.prems, of "[]"] show ?thesis by simp
  next
    case (Cons b t')
    show ?thesis
    proof (cases b)
      case True
      let ?s1 = "s\<lparr>log := log s @ [NotReady (name df)], show_wait_till_ready_errors := False\<rparr>"
      have "wait_feeds dfs t' ?s1 = ?s1" by (rule wait_feeds_quiet) simp
      with True Cons Cons.prems show ?thesis by auto
    next
      case False
      with Cons.IH [OF Cons.prems, of t'] Cons show ?thesis by simp
    qed
  qed
qed

lemma misses_all_no_data: "filter is_no_data (misses s) = misses s"
  by (auto simp: misses_def misses_of_def filter_concat filter_map o_def split_def
        intro!: arg_cong [where f = concat])

lemma update_raises_flag:
  assumes "update_exchange_rates_from_data_feeds s = (Some e, s')"
  shows "show_update_exchange_rates_from_data_feeds_errors s'
           = show_update_exchange_rates_from_data_feeds_errors s"
proof -
  obtain e1 s1 h where u: "update_feeds (data_feeds s) (store_snapshots (data_feeds s) s) False
      = (e1, s1, h)"
    by (cases "update_feeds (data_feeds s) (store_snapshots (data_feeds s) s) False") auto
  from update_feeds_frame [OF u] store_snapshots_frame [of "data_feeds s" s]
  have "show_update_exchange_rates_from_data_feeds_errors s1
      = show_update_exchange_rates_from_data_feeds_errors s" by simp
  with assms u show ?thesis
    by (cases e1) (auto simp: update_exchange_rates_from_data_feeds_def)
qed

lemma update_miss_reported:
  assumes "miss_reported s"
  shows "miss_reported (snd (update_exchange_rates_from_data_feeds s))"
proof (cases "show_update_exchange_rates_from_data_feeds_errors s")
  case False
  with assms update_frame [of s] show ?thesis by (simp add: miss_reported_def)
next
  case True
  obtain e s' where u: "update_exchange_rates_from_data_feeds s = (e, s')"
    by (cases "update_exchange_rates_from_data_feeds s") auto
  show ?thesis
  proof (cases e)
    case None
    from refresh_log [OF u [unfolded None]] True
    have l: "log s' = log s @ misses s"
      and f: "show_update_exchange_rates_from_data_feeds_errors s' = (misses s = [])" by simp_all
    show ?thesis
    proof (cases "misses s = []")
      case True
      with f u show ?thesis by (simp add: miss_reported_def)
    next
      case False
      with l misses_all_no_data [of s] u show ?thesis by (simp add: miss_reported_def)
    qed
  next
    case (Some x)
    from update_raises_flag [OF u [unfolded Some]] True u show ?thesis
      by (simp add: miss_reported_def)
  qed
qed

lemma wait_timeout_unreported:
  assumes "timeout_unreported s"
  shows "timeout_unreported (wait_till_ready t s)"
proof (cases "show_wait_till_ready_errors s")
  case False
  with assms wait_feeds_quiet [of s "data_feeds s" t] show ?thesis
    by (simp add: wait_till_ready_def)
next
  case True
  with assms have e: "filter is_not_ready (log s) = []" by (simp add: timeout_unreported_def)
  from wait_feeds_first [OF True, of "data_feeds s" t] e assms show ?thesis
    by (auto simp: wait_till_ready_def timeout_unreported_def split: if_splits)
qed

lemma request_cycle_wait:
  "show_wait_till_ready_errors (request_cycle t s) = show_wait_till_ready_errors (wait_till_ready t s)
   \<and> filter is_not_ready (log (request_cycle t s))
       = filter is_not_ready (log (wait_till_ready t s))"
proof -
  let ?w = "wait_till_ready t s"
  obtain e s' where u: "update_exchange_rates_from_data_feeds ?w = (e, s')"
    by (cases "update_exchange_rates_from_data_feeds ?w") auto
  from update_frame [of ?w] u show ?thesis
    by (cases e) (simp_all add: request_cycle_def)
qed

lemma request_cycle_miss_reported:
  assumes "miss_reported s"
  shows "miss_reported (request_cycle t s)"
proof -
  let ?w = "wait_till_ready t s"
  from assms wait_till_ready_frame [of t s] have w: "miss_reported ?w"
    by (simp add: miss_reported_def)
  obtain e s' where u: "update_exchange_rates_from_data_feeds ?w = (e, s')"
    by (cases "update_exchange_rates_from_data_feeds ?w") auto
  from update_miss_reported [OF w] u show ?thesis
    by (cases e) (simp_all add: request_cycle_def miss_reported_def)
qed

text \<open>A step that is neither a refresh nor a wait changes neither flag and adds no
  report of either kind.\<close>

lemma step_other:
  assumes "x \<noteq> UpdateExchangeRates" and "\<forall>t. x \<noteq> WaitTillReady t" and "\<forall>t. x \<noteq> RequestCycle t"
  shows "show_update_exchange_rates_from_data_feeds_errors (step x s)
           = show_update_exchange_rates_from_data_feeds_errors s
       \<and> show_wait_till_ready_errors (step x s) = show_wait_till_ready_errors s
       \<and> filter is_no_data (log (step x s)) = filter is_no_data (log s)
       \<and> filter is_not_ready (log (step x s)) = filter is_not_ready (log s)"
proof (cases x)
  case GetInstance
  then show ?thesis using init_config_frame [of s] by (simp add: get_instance_def)
next
  case InitConfig
  then show ?thesis using init_config_frame [of s] by simp
next
  case (SetGlobalExchangeRateConfig c)
  then show ?thesis
    using init_config_frame [of "s\<lparr>exchange_rate_config_override := Some c\<rparr>"]
    by (simp add: set_global_exchange_rate_config_def)
next
  case (SetDataFeeds fs)
  then show ?thesis
    using init_config_frame [of "s\<lparr>data_feeds_override := Some fs\<rparr>"]
    by (simp add: set_data_feeds_def)
next
  case (GetExchangeRate src)
  then show ?thesis by (simp add: get_exchange_rate_frame)
next
  case (AdjustTokenRate a p src)
  then show ?thesis
    by (simp add: adjust_token_rate_snd get_exchange_rate_frame start_def stop_def)
next
  case (ConvertTokenValue a f t src)
  then show ?thesis
    by (simp add: convert_token_value_snd get_exchange_rate_frame start_def stop_def)
qed (use assms in \<open>simp_all add: set_update_interval_def start_def stop_def\<close>)

lemma step_update_quiet:
  assumes "\<not> show_update_exchange_rates_from_data_feeds_errors s"
  shows "\<not> show_update_exchange_rates_from_data_feeds_errors (step x s)
       \<and> filter is_no_data (log (step x s)) = filter is_no_data (log s)"
proof (cases x)
  case UpdateExchangeRates
  with assms update_frame [of s] show ?thesis by simp
next
  case (WaitTillReady t)
  with assms wait_till_ready_frame [of t s] show ?thesis by simp
next
  case (RequestCycle t)
  with assms request_cycle_frame [of t s] show ?thesis by simp
qed (use assms step_other [of x s] in simp_all)

lemma step_wait_quiet:
  assumes "\<not> show_wait_till_ready_errors s"
  shows "\<not> show_wait_till_ready_errors (step x s)
       \<and> filter is_not_ready (log (step x s)) = filter is_not_ready (log s)"
proof (cases x)
  case UpdateExchangeRates
  with assms update_frame [of s] show ?thesis by simp
next
  case (WaitTillReady t)
  with assms wait_till_ready_frame [of t s] show ?thesis by simp
next
  case (RequestCycle t)
  with assms request_cycle_frame [of t s] show ?thesis by simp
qed (use assms step_other [of x s] in simp_all)

lemma step_miss_reported: "miss_reported s \<Longrightarrow> miss_reported (step x s)"
proof (cases x)
  case UpdateExchangeRates
  then show "miss_reported s \<Longrightarrow> ?thesis" by (simp add: update_miss_reported)
next
  case (WaitTillReady t)
  then show "miss_reported s \<Longrightarrow> ?thesis"
    using wait_till_ready_frame [of t s] by (simp add: miss_reported_def)
next
  case (RequestCycle t)
  then show "miss_reported s \<Longrightarrow> ?thesis" by (simp add: request_cycle_miss_reported)
qed (use step_other [of x s] in \<open>simp_all add: miss_reported_def\<close>)

lemma step_timeout_unreported: "timeout_unreported s \<Longrightarrow> timeout_unreported (step x s)"
proof (cases x)
  case UpdateExchangeRates
  then show "timeout_unreported s \<Longrightarrow> ?thesis"
    using update_frame [of s] by (simp add: timeout_unreported_def)
next
  case (WaitTillReady t)
  then show "timeout_unreported s \<Longrightarrow> ?thesis" by (simp add: wait_timeout_unreported)
next
  case (RequestCycle t)
  then show "timeout_unreported s \<Longrightarrow> ?thesis"
    using wait_timeout_unreported [of s t] request_cycle_wait [of t s]
    by (simp add: timeout_unreported_def)
qed (use step_other [of x s] in \<open>simp_all add: timeout_unreported_def\<close>)

lemma run_update_quiet:
  "\<not> show_update_exchange_rates_from_data_feeds_errors s \<Longrightarrow>
   \<not> show_update_exchange_rates_from_data_feeds_errors (run xs s)
   \<and> filter is_no_data (log (run xs s)) = filter is_no_data (log s)"
proof (induction xs arbitrary: s)
  case Nil
  then show ?case by simp
next
  case (Cons x xs)
  from step_update_quiet [OF Cons.prems, of x] Cons.IH [of "step x s"] show ?case by simp
qed

lemma run_wait_quiet:
  "\<not> show_wait_till_ready_errors s \<Longrightarrow>
   \<not> show_wait_till_ready_errors (run xs s)
   \<and> filter is_not_ready (log (run xs s)) = filter is_not_ready (log s)"
proof (induction xs arbitrary: s)
  case Nil
  then show ?case by simp
next
  case (Cons x xs)
  from step_wait_quiet [OF Cons.prems, of x] Cons.IH [of "step x s"] show ?case by simp
qed

lemma run_miss_reported: "miss_reported s \<Longrightarrow> miss_reported (run xs s)"
  by (induction xs arbitrary: s) (simp_all add: step_miss_reported)

lemma run_timeout_unreported: "timeout_unreported s \<Longrightarrow> timeout_unreported (run xs s)"
  by (induction xs arbitrary: s) (simp_all add: step_timeout_unreported)

text \<open>
  C8, as stated, fails for the lookup misses: the flag is cleared once, after both loops
  of the refresh (line 201), so every miss of the first refresh that has one is
  reported, not only the first.  With two assets that the feed has no price for, the
  second miss of the process is reported like the first.
\<close>

theorem two_misses_both_reported:
  "log two_missing = []
   \<and> fst (update_exchange_rates_from_data_feeds two_missing) = None
   \<and> filter is_no_data (log (snd (update_exchange_rates_from_data_feeds two_missing)))
       = [NoDataFound ''DOGE'' ''feedX'', NoDataFound ''ETH'' ''feedX'']"
  by (simp add: two_missing_update two_missing_eval)

text \<open>
  C8, amended.  Readiness timeouts: a timeout met while the flag is true produces one
  report and clears the flag; in every state reached from the class as loaded the flag
  is true exactly if no timeout has been reported yet, so the first timeout of the
  process is reported; and once the flag is false no run of operations sets it again or
  adds a report of a timeout.  Lookup misses: a refresh that runs while the flag is true
  reports every miss it meets before it ends, in order, whether it completes or raises;
  it clears the flag exactly if it completes and has met a miss, and leaves the flag
  true if it raises, so that the next refresh reports its misses again; in every
  reachable state the flag is false only after a miss has been reported; and once the
  flag is false no run of operations sets it again or adds a report of a miss.
\<close>

theorem reports_suppressed:
  "(show_wait_till_ready_errors s \<and> list_ex id (take (length (data_feeds s)) timed_out)
      \<longrightarrow> (\<exists>n. log (wait_till_ready timed_out s) = log s @ [NotReady n])
          \<and> \<not> show_wait_till_ready_errors (wait_till_ready timed_out s))
   \<and> (show_wait_till_ready_errors (run xs (class_state fetcher conversion feeds))
        = (filter is_not_ready (log (run xs (class_state fetcher conversion feeds))) = []))
   \<and> (\<not> show_wait_till_ready_errors s
      \<longrightarrow> \<not> show_wait_till_ready_errors (run xs s)
          \<and> filter is_not_ready (log (run xs s)) = filter is_not_ready (log s))
   \<and> (show_update_exchange_rates_from_data_feeds_errors s
      \<longrightarrow> (fst (update_exchange_rates_from_data_feeds s) = None) = (\<not> refresh_raises s)
          \<and> log (snd (update_exchange_rates_from_data_feeds s))
              = log s @ misses_met s @ (if refresh_raises s then [FeedError] else [])
          \<and> show_update_exchange_rates_from_data_feeds_errors
                (snd (update_exchange_rates_from_data_feeds s))
              = (refresh_raises s \<or> misses s = []))
   \<and> (\<not> refresh_raises s \<longrightarrow> misses_met s = misses s)
   \<and> (\<not> show_update_exchange_rates_from_data_feeds_errors
           (run xs (class_state fetcher conversion feeds))
      \<longrightarrow> filter is_no_data (log (run xs (class_state fetcher conversion feeds))) \<noteq> [])
   \<and> (\<not> show_update_exchange_rates_from_data_feeds_errors s
      \<longrightarrow> \<not> show_update_exchange_rates_from_data_feeds_errors (run xs s)
          \<and> filter is_no_data (log (run xs s)) = filter is_no_data (log s))"
proof (intro conjI impI)
  assume a: "show_wait_till_ready_errors s \<and> list_ex id (take (length (data_feeds s)) timed_out)"
  then have sw: "show_wait_till_ready_errors s" by simp
  from wait_feeds_first [OF sw, of "data_feeds s" timed_out] a
  obtain n where n: "wait_till_ready timed_out s
      = s\<lparr>log := log s @ [NotReady n], show_wait_till_ready_errors := False\<rparr>"
    by (auto simp: wait_till_ready_def)
  from n show "\<exists>n. log (wait_till_ready timed_out s) = log s @ [NotReady n]" by auto
  from n show "\<not> show_wait_till_ready_errors (wait_till_ready timed_out s)" by simp
next
  have "timeout_unreported (class_state fetcher conversion feeds)"
    by (simp add: timeout_unreported_def class_state_def)
  from run_timeout_unreported [OF this, of xs]
  show "show_wait_till_ready_errors (run xs (class_state fetcher conversion feeds))
        = (filter is_not_ready (log (run xs (class_state fetcher conversion feeds))) = [])"
    by (simp add: timeout_unreported_def)
next
  assume "\<not> show_wait_till_ready_errors s"
  from run_wait_quiet [OF this, of xs]
  show "\<not> show_wait_till_ready_errors (run xs s)"
    and "filter is_not_ready (log (run xs s)) = filter is_not_ready (log s)" by simp_all
next
  assume a: "show_update_exchange_rates_from_data_feeds_errors s"
  from refresh_outcome [OF a]
  show "(fst (update_exchange_rates_from_data_feeds s) = None) = (\<not> refresh_raises s)"
    and "log (snd (update_exchange_rates_from_data_feeds s))
              = log s @ misses_met s @ (if refresh_raises s then [FeedError] else [])"
    and "show_update_exchange_rates_from_data_feeds_errors
                (snd (update_exchange_rates_from_data_feeds s))
              = (refresh_raises s \<or> misses s = [])" by simp_all
next
  assume "\<not> refresh_raises s"
  then show "misses_met s = misses s" by (simp add: misses_met_def)
next
  assume n: "\<not> show_update_exchange_rates_from_data_feeds_errors
           (run xs (class_state fetcher conversion feeds))"
  have "miss_reported (class_state fetcher conversion feeds)"
    by (simp add: miss_reported_def class_state_def)
  from run_miss_reported [OF this, of xs] n
  show "filter is_no_data (log (run xs (class_state fetcher conversion feeds))) \<noteq> []"
    by (simp add: miss_reported_def)
next
  assume "\<not> show_update_exchange_rates_from_data_feeds_errors s"
  from run_update_quiet [OF this, of xs]
  show "\<not> show_update_exchange_rates_from_data_feeds_errors (run xs s)"
    and "filter is_no_data (log (run xs s)) = filter is_no_data (log s)" by simp_all
qed

lemma timed_out_once_eval:
  "timed_out_once = two_missing\<lparr>log := [NotReady ''feedX''], show_wait_till_ready_errors := False\<rparr>"
  by (simp add: timed_out_once_def wait_till_ready_def two_missing_eval feedX_def)

lemma refreshed_once_eval:
  "\<not> show_update_exchange_rates_from_data_feeds_errors refreshed_once
   \<and> log refreshed_once = [NoDataFound ''DOGE'' ''feedX'', NoDataFound ''ETH'' ''feedX'']"
  by (simp add: refreshed_once_def two_missing_def config_defs update_defs case_defs feedX_def)

lemma no_source_eval:
  "data_feeds no_source = [feedX]
   \<and> global_config no_source
       = [(''DOGE'', [(''default'', PFloat NaN), (''source'', PStr ''feedX'')]),
          (''BAD'', [(''default'', PFloat NaN)])]
   \<and> show_update_exchange_rates_from_data_feeds_errors no_source
   \<and> log no_source = []"
  by (simp add: no_source_def config_defs case_defs)

lemma no_source_repeats:
  "log (run [RequestCycle [], RequestCycle []] no_source)
     = [NoDataFound ''DOGE'' ''feedX'', FeedError, RequestError,
        NoDataFound ''DOGE'' ''feedX'', FeedError, RequestError]"
  by (simp add: no_source_def config_defs update_defs case_defs feedX_def request_cycle_def
        wait_till_ready_def)

theorem reports_suppressed_witness:
  "show_wait_till_ready_errors two_missing
   \<and> \<not> show_wait_till_ready_errors (wait_till_ready [True] two_missing)
   \<and> \<not> show_wait_till_ready_errors (run [WaitTillReady [True], RequestCycle [True]] timed_out_once)
   \<and> filter is_not_ready (log (run [WaitTillReady [True], RequestCycle [True]] timed_out_once))
       = [NotReady ''feedX'']
   \<and> show_update_exchange_rates_from_data_feeds_errors two_missing
   \<and> \<not> refresh_raises two_missing
   \<and> log refreshed_once = [NoDataFound ''DOGE'' ''feedX'', NoDataFound ''ETH'' ''feedX'']
   \<and> \<not> show_update_exchange_rates_from_data_feeds_errors refreshed_once
   \<and> \<not> show_update_exchange_rates_from_data_feeds_errors
         (run [UpdateExchangeRates, RequestCycle [False]] refreshed_once)
   \<and> filter is_no_data (log (run [UpdateExchangeRates, RequestCycle [False]] refreshed_once))
       = [NoDataFound ''DOGE'' ''feedX'', NoDataFound ''ETH'' ''feedX'']
   \<and> filter is_no_data (log (run [SetDataFeeds [feedX], UpdateExchangeRates]
         (class_state (Some [[PStr ''BTC'', PStr ''FEEDX''], [PStr ''DOGE'', PStr ''feedx''],
                             [PStr ''ETH'', PStr ''feedX'']]) None []))) \<noteq> []
   \<and> show_update_exchange_rates_from_data_feeds_errors no_source
   \<and> refresh_raises no_source
   \<and> fst (update_exchange_rates_from_data_feeds no_source) \<noteq> None
   \<and> log (snd (update_exchange_rates_from_data_feeds no_source))
       = [NoDataFound ''DOGE'' ''feedX'', FeedError]
   \<and> show_update_exchange_rates_from_data_feeds_errors
         (snd (update_exchange_rates_from_data_feeds no_source))"
proof -
  have h1: "show_wait_till_ready_errors two_missing
            \<and> list_ex id (take (length (data_feeds two_missing)) [True])"
    by (simp add: two_missing_eval)
  have h3: "\<not> show_wait_till_ready_errors timed_out_once"
    and l3: "filter is_not_ready (log timed_out_once) = [NotReady ''feedX'']"
    by (simp_all add: timed_out_once_eval)
  have h4: "show_update_exchange_rates_from_data_feeds_errors two_missing"
    and l4: "log two_missing = []"
    and r4: "\<not> refresh_raises two_missing"
    and m4: "misses two_missing = [NoDataFound ''DOGE'' ''feedX'', NoDataFound ''ETH'' ''feedX'']"
    by (simp_all add: two_missing_eval refresh_raises_def bad_entry_def misses_def misses_of_def
          names_feed_def get_price_def dict_get_def feedX_def case_defs)
  have h6: "\<not> show_update_exchange_rates_from_data_feeds_errors refreshed_once"
    and l6: "filter is_no_data (log refreshed_once)
               = [NoDataFound ''DOGE'' ''feedX'', NoDataFound ''ETH'' ''feedX'']"
    by (simp_all add: refreshed_once_eval)
  have h7: "show_update_exchange_rates_from_data_feeds_errors no_source"
    and l7: "log no_source = []"
    and r7: "refresh_raises no_source"
    and m7: "misses_met no_source = [NoDataFound ''DOGE'' ''feedX'']"
    by (simp_all add: no_source_eval refresh_raises_def bad_entry_def misses_met_def misses_of_def
          names_feed_def get_price_def dict_get_def feedX_def case_defs)
  note t1 = reports_suppressed [where s = two_missing and timed_out = "[True]" and xs = "[]"
      and fetcher = None and conversion = None and feeds = "[]"]
  note t2 = reports_suppressed [where s = timed_out_once and timed_out = "[]"
      and xs = "[WaitTillReady [True], RequestCycle [True]]"
      and fetcher = None and conversion = None and feeds = "[]"]
  note t3 = reports_suppressed [where s = refreshed_once and timed_out = "[]"
      and xs = "[UpdateExchangeRates, RequestCycle [False]]"
      and fetcher = None and conversion = None and feeds = "[]"]
  note t5 = reports_suppressed [where s = two_missing and timed_out = "[]"
      and xs = "[SetDataFeeds [feedX], UpdateExchangeRates]"
      and fetcher = "Some [[PStr ''BTC'', PStr ''FEEDX''], [PStr ''DOGE'', PStr ''feedx''],
                           [PStr ''ETH'', PStr ''feedX'']]"
      and conversion = None and feeds = "[]"]
  note t7 = reports_suppressed [where s = no_source and timed_out = "[]" and xs = "[]"
      and fetcher = None and conversion = None and feeds = "[]"]
  from t1 h1 have a: "\<not> show_wait_till_ready_errors (wait_till_ready [True] two_missing)"
    by blast
  from t2 h3 l3
  have b: "\<not> show_wait_till_ready_errors
               (run [WaitTillReady [True], RequestCycle [True]] timed_out_once)
     \<and> filter is_not_ready (log (run [WaitTillReady [True], RequestCycle [True]] timed_out_once))
         = [NotReady ''feedX'']"
    by simp
  from t1 h4 have "log (snd (update_exchange_rates_from_data_feeds two_missing))
      = log two_missing @ misses_met two_missing @ (if refresh_raises two_missing then [FeedError] else [])
     \<and> misses_met two_missing = misses two_missing"
    using r4 by blast
  with l4 r4 m4 have c: "log refreshed_once
      = [NoDataFound ''DOGE'' ''feedX'', NoDataFound ''ETH'' ''feedX'']"
    by (simp add: refreshed_once_def)
  from t3 h6 l6
  have d: "\<not> show_update_exchange_rates_from_data_feeds_errors
               (run [UpdateExchangeRates, RequestCycle [False]] refreshed_once)
     \<and> filter is_no_data (log (run [UpdateExchangeRates, RequestCycle [False]] refreshed_once))
         = [NoDataFound ''DOGE'' ''feedX'', NoDataFound ''ETH'' ''feedX'']"
    by simp
  have r: "run [SetDataFeeds [feedX], UpdateExchangeRates]
         (class_state (Some [[PStr ''BTC'', PStr ''FEEDX''], [PStr ''DOGE'', PStr ''feedx''],
                             [PStr ''ETH'', PStr ''feedX'']]) None []) = refreshed_once"
    by (simp add: refreshed_once_def two_missing_def)
  from t5 h6 have e: "filter is_no_data (log (run [SetDataFeeds [feedX], UpdateExchangeRates]
         (class_state (Some [[PStr ''BTC'', PStr ''FEEDX''], [PStr ''DOGE'', PStr ''feedx''],
                             [PStr ''ETH'', PStr ''feedX'']]) None []))) \<noteq> []"
    unfolding r by blast
  from t7 h7 have "(fst (update_exchange_rates_from_data_feeds no_source) = None)
        = (\<not> refresh_raises no_source)
     \<and> log (snd (update_exchange_rates_from_data_feeds no_source))
         = log no_source @ misses_met no_source
           @ (if refresh_raises no_source then [FeedError] else [])
     \<and> show_update_exchange_rates_from_data_feeds_errors
          (snd (update_exchange_rates_from_data_feeds no_source))
         = (refresh_raises no_source \<or> misses no_source = [])"
    by blast
  with l7 r7 m7
  have f: "fst (update_exchange_rates_from_data_feeds no_source) \<noteq> None
     \<and> log (snd (update_exchange_rates_from_data_feeds no_source))
         = [NoDataFound ''DOGE'' ''feedX'', FeedError]
     \<and> show_update_exchange_rates_from_data_feeds_errors
          (snd (update_exchange_rates_from_data_feeds no_source))"
    by simp
  from h1 h4 r4 h6 h7 r7 a b c d e f show ?thesis by simp
qed

end
